theory Spec2Isabelle
  imports Complex_Main
begin

section \<open>Fixed-order elements: the static lookup tables\<close>

text \<open>
  The tables of \<^verbatim>\<open>elements2D.cpp\<close> and \<^verbatim>\<open>elements3D.cpp\<close>, entry by entry.
  \<^verbatim>\<open>ref_vert\<close> is the flat array of reference coordinates (\<^verbatim>\<open>num_dim_\<close> reals per
  vertex) and \<^verbatim>\<open>vert_to_node\<close> the \<^verbatim>\<open>const int\<close> table read by \<^verbatim>\<open>vert_node_map\<close>.
\<close>

definition Quad4_ref_vert :: "real list" where
  "Quad4_ref_vert =
    [-1, -1,
      1, -1,
      1,  1,
     -1,  1]"

definition Quad4_vert_to_node :: "int list" where
  "Quad4_vert_to_node = [0, 2, 6, 8]"

definition Quad8_ref_vert :: "real list" where
  "Quad8_ref_vert =
    [-1, -1,
      1, -1,
      1,  1,
     -1,  1,
      0, -1,
      1,  0,
      0,  1,
     -1,  0]"

definition Quad8_vert_to_node :: "int list" where
  "Quad8_vert_to_node = [0, 4, 24, 20, 2, 14, 23, 10]"

definition Quad12_ref_vert :: "real list" where
  "Quad12_ref_vert =
    [-1, -1,
      1, -1,
      1,  1,
     -1,  1,
     -1/3, -1,
      1/3, -1,
      1/3,  1,
     -1/3,  1,
     -1, -1/3,
      1, -1/3,
      1,  1/3,
     -1,  1/3]"

definition Quad12_vert_to_node :: "int list" where
  "Quad12_vert_to_node = [0, 6, 48, 42, 2, 4, 46, 44, 14, 20, 34, 28]"

definition Hex8_ref_vert :: "real list" where
  "Hex8_ref_vert =
    [-1, -1, -1,
      1, -1, -1,
     -1,  1, -1,
      1,  1, -1,
     -1, -1,  1,
      1, -1,  1,
     -1,  1,  1,
      1,  1,  1]"

definition Hex8_vert_to_node :: "int list" where
  "Hex8_vert_to_node = [0, 2, 6, 8, 18, 20, 24, 24]"

definition Hex20_ref_vert :: "real list" where
  "Hex20_ref_vert =
    [-1, -1, -1,
      1, -1, -1,
      1,  1, -1,
     -1,  1, -1,
     -1, -1,  1,
      1, -1,  1,
      1,  1,  1,
     -1,  1,  1,
      0, -1, -1,
      1,  0, -1,
      0,  1, -1,
     -1,  0, -1,
      0, -1,  1,
      1,  0,  1,
      0,  1,  1,
     -1,  0,  1,
     -1, -1,  0,
      1, -1,  0,
      1,  1,  0,
     -1,  1,  0]"

definition Hex20_vert_to_node :: "int list" where
  "Hex20_vert_to_node =
    [0, 4, 24, 20, 100, 104, 124, 120, 2, 14, 22, 10, 102, 114, 122, 110, 50, 54, 74, 70]"

definition Hex32_ref_vert :: "real list" where
  "Hex32_ref_vert =
    [-1, -1, -1,
      1, -1, -1,
      1,  1, -1,
     -1,  1, -1,
     -1, -1,  1,
      1, -1,  1,
      1,  1,  1,
     -1,  1,  1,
     -1, -1/3, -1,
      1, -1/3, -1,
      1,  1/3, -1,
     -1,  1/3, -1,
     -1, -1/3,  1,
      1, -1/3,  1,
      1,  1/3,  1,
     -1,  1/3,  1,
     -1/3, -1, -1,
      1/3, -1, -1,
      1/3,  1, -1,
     -1/3,  1, -1,
     -1/3, -1,  1,
      1/3, -1,  1,
      1/3,  1,  1,
     -1/3,  1,  1,
     -1, -1, -1/3,
      1, -1, -1/3,
      1,  1, -1/3,
     -1,  1, -1/3,
     -1, -1,  1/3,
      1, -1,  1/3,
      1,  1,  1/3,
     -1,  1,  1/3]"

definition Hex32_vert_to_node :: "int list" where
  "Hex32_vert_to_node =
    [0, 6, 48, 42, 294, 300, 342, 336, 14, 20, 32, 28, 308, 314, 328, 322,
     2, 4, 46, 44, 296, 298, 340, 338, 98, 104, 146, 140, 196, 202, 244, 298]"

text \<open>
  \<^verbatim>\<open>ref_locs(vert_lid, dim)\<close> views the flat \<^verbatim>\<open>ref_vert\<close> array as a
  \<^verbatim>\<open>num_verts_ x num_dim_\<close> row-major \<^verbatim>\<open>ViewCArray\<close>.
\<close>

definition ref_locs :: "real list \<Rightarrow> nat \<Rightarrow> nat \<Rightarrow> nat \<Rightarrow> real" where
  "ref_locs ref_vert num_dim vert_lid this_dim = ref_vert ! (vert_lid * num_dim + this_dim)"

text \<open>
  Modelled from the spec: the headers that declare \<^verbatim>\<open>num_nodes_\<close> are not among the
  sources, so the node grid of a fixed-order element is taken as the claim describes it:
  \<open>n\<close> equispaced positions per axis on \<open>[-1, 1]\<close>, a reference coordinate \<open>\<xi>\<close> sitting
  at grid index \<open>(\<xi> + 1)(n - 1)/2\<close>, and the flat id of the position with per-axis grid
  indices \<open>(i, j, k)\<close> being \<open>i + j n + k n\<^sup>2\<close>. \<open>grid_node_id\<close> is that flat id for the
  reference position of vertex \<open>vert_lid\<close> (\<open>num_dim\<close> is 2 or 3).
\<close>

definition grid_index :: "nat \<Rightarrow> real \<Rightarrow> int" where
  "grid_index n \<xi> = \<lfloor>(\<xi> + 1) * (real n - 1) / 2\<rfloor>"

definition grid_node_id :: "nat \<Rightarrow> real list \<Rightarrow> nat \<Rightarrow> nat \<Rightarrow> int" where
  "grid_node_id n ref_vert num_dim vert_lid =
     (\<Sum>this_dim \<leftarrow> [0..<num_dim].
        grid_index n (ref_locs ref_vert num_dim vert_lid this_dim) * int n ^ this_dim)"

subsection \<open>The Hex20 constructor\<close>

text \<open>
  \<^verbatim>\<open>surface_to_dof_lid\<close> is a \<^verbatim>\<open>RaggedRightArray<int>\<close> allocated from the strides
  (\<^verbatim>\<open>nsurfaces\<close> rows of 8 cells). A cell is \<open>None\<close> until the constructor assigns it.
  The constructor body is the sequence of assignments
  \<^verbatim>\<open>surface_to_dof_lid(row, col) = val\<close> below, in source order.
\<close>

type_synonym ragged = "int option list list"

definition RaggedRightArray :: "nat list \<Rightarrow> ragged" where
  "RaggedRightArray strides = map (\<lambda>s. replicate s None) strides"

definition assign :: "nat \<times> nat \<times> int \<Rightarrow> ragged \<Rightarrow> ragged" where
  "assign = (\<lambda>(row, col, val) a. a[row := (a ! row)[col := Some val]])"

definition Hex20_assignments :: "(nat \<times> nat \<times> int) list" where
  "Hex20_assignments =
    [(0,0,0), (0,1,8), (0,2,1), (0,3,11), (0,4,9), (0,5,3), (0,6,10), (0,7,2),
     (1,0,4), (1,1,12), (1,2,5), (1,3,15), (1,4,13), (1,5,7), (1,6,14), (1,7,6),
     (3,0,0), (3,1,8), (3,2,1), (3,3,16), (3,4,17), (3,5,4), (3,6,12), (3,7,5),
     (3,0,3), (3,1,10), (3,2,2), (3,3,19), (3,4,18), (3,5,7), (3,6,14), (3,7,6),
     (4,0,0), (4,1,11), (4,2,3), (4,3,16), (4,4,19), (4,5,4), (4,6,15), (4,7,7),
     (5,0,1), (5,1,9), (5,2,2), (5,3,17), (5,4,18), (5,5,5), (5,6,13), (5,7,6)]"

definition Hex20_surface_to_dof_lid :: ragged where
  "Hex20_surface_to_dof_lid =
     (let nsurfaces = 6;
          strides = replicate nsurfaces 8
      in fold assign Hex20_assignments (RaggedRightArray strides))"

section \<open>Scalars and arrays\<close>

text \<open>
  \<^verbatim>\<open>real_t\<close> is \<^verbatim>\<open>double\<close>. The model computes with exact reals: sums, differences and
  products of finite numbers are taken to be finite and exact (no rounding, no overflow).
  The one operation of the evaluators that leaves the finite numbers even then is a
  division by zero, which in IEEE arithmetic raises no error and yields an infinity or a
  NaN. A computed cell is therefore a \<open>real option\<close>, \<open>None\<close> standing for a value that
  is not a finite number, and \<open>fdiv\<close> is the division of the source. An infinity or NaN
  stays one when it is multiplied by anything (\<open>fmul\<close>).
\<close>

type_synonym real_t = "real option"

definition fdiv :: "real \<Rightarrow> real \<Rightarrow> real_t" where
  "fdiv a b = (if b = 0 then None else Some (a / b))"

definition fmul :: "real_t \<Rightarrow> real_t \<Rightarrow> real_t" where
  "fmul a b = (case a of None \<Rightarrow> None | Some u \<Rightarrow> (case b of None \<Rightarrow> None | Some v \<Rightarrow> Some (u * v)))"

text \<open>
  A one-dimensional \<^verbatim>\<open>CArray\<close> is a list; a fresh array of reals is modelled zero-filled
  and a fresh array of computed cells filled with \<open>None\<close> (every cell the functions below
  read has been written before). A two-dimensional \<^verbatim>\<open>CArray(n, m)\<close> is a list of \<open>n\<close>
  rows of \<open>m\<close> cells; \<open>set2\<close> is the assignment \<^verbatim>\<open>a(i, d) = v\<close>.
\<close>

definition CArray :: "nat \<Rightarrow> real list" where
  "CArray n = replicate n 0"

definition CArray2 :: "nat \<Rightarrow> nat \<Rightarrow> 'a \<Rightarrow> 'a list list" where
  "CArray2 n m v = replicate n (replicate m v)"

definition set2 :: "'a list list \<Rightarrow> nat \<Rightarrow> nat \<Rightarrow> 'a \<Rightarrow> 'a list list" where
  "set2 a i d v = a[i := (a ! i)[d := v]]"

section \<open>The arbitrary-order hexahedron HexN\<close>

text \<open>
  The data members of class \<^verbatim>\<open>HexN\<close> (the trailing underscore of the C++ names is
  dropped). Sizes and indices are \<^verbatim>\<open>int\<close> in the source; every one of them starts at 0
  and only grows, so they are natural numbers here. For every element that
  \<^verbatim>\<open>setup_HexN\<close> can allocate, \<^verbatim>\<open>num_nodes_\<close> is itself an \<^verbatim>\<open>int\<close>, and all index
  arithmetic stays below it.
\<close>

record HexN =
  num_nodes_1d :: nat
  num_nodes :: nat
  num_verts_1d :: nat
  num_verts :: nat
  num_basis :: nat
  order :: nat
  HexN_Nodes_1d :: "real list"
  HexN_Nodes :: "real list list"
  HexN_Verts_1d :: "real list"
  HexN_Verts :: "real list list"
  Vert_Node_map :: "nat list"

definition node_rid :: "HexN \<Rightarrow> nat \<Rightarrow> nat \<Rightarrow> nat \<Rightarrow> nat" where
  "node_rid e i j k = i + j * num_nodes_1d e + k * num_nodes_1d e * num_nodes_1d e"

definition vert_rid :: "HexN \<Rightarrow> nat \<Rightarrow> nat \<Rightarrow> nat \<Rightarrow> nat" where
  "vert_rid e i j k = i + j * num_verts_1d e + k * num_verts_1d e * num_verts_1d e"

text \<open>
  Modelled from the spec: the source only encodes multi-indices (\<^verbatim>\<open>node_rid\<close>,
  \<^verbatim>\<open>vert_rid\<close>); the decoding direction \<^verbatim>\<open>multi_index(flat)\<close> of the
  TensorProductIndexer is described by the spec alone, axis 1 varying fastest.
\<close>

definition multi_index :: "nat \<Rightarrow> nat \<Rightarrow> nat \<times> nat \<times> nat" where
  "multi_index N flat = (flat mod N, (flat div N) mod N, flat div (N * N))"

subsection \<open>Construction of a HexN\<close>

text \<open>
  \<^verbatim>\<open>HexN::setup_HexN(elem_order)\<close> and \<^verbatim>\<open>HexN::create_lobatto_nodes(element_order)\<close>.
  Both are \<^verbatim>\<open>void\<close>, contain no \<^verbatim>\<open>throw\<close>, no \<^verbatim>\<open>return\<close> and no test on the node
  coordinates, so the model is a total function that yields the data members. The node
  generator \<^verbatim>\<open>lobatto_nodes_1D(HexN_Nodes_1d_, num_nodes_1d)\<close> lives in the utilities,
  which are not among the sources; it is a parameter that maps the array and the node
  count to the filled array. \<open>every_other n\<close> lists the indices visited by
  \<^verbatim>\<open>for (i = 0; i < n; i = i + 2)\<close>. The element order is a natural number (a negative
  \<^verbatim>\<open>elem_order\<close> would ask for arrays of negative extent).
\<close>

definition every_other :: "nat \<Rightarrow> nat list" where
  "every_other n = filter even [0..<n]"

definition create_lobatto_nodes :: "(real list \<Rightarrow> nat \<Rightarrow> real list) \<Rightarrow> HexN \<Rightarrow> nat \<Rightarrow> HexN" where
  "create_lobatto_nodes lobatto_nodes_1D e element_order =
     (let num_nodes_1d = (if element_order = 0 then 2 else 2 * element_order + 1);
          e = e\<lparr>HexN_Nodes_1d := lobatto_nodes_1D (HexN_Nodes_1d e) num_nodes_1d\<rparr>;
          e = e\<lparr>HexN_Nodes :=
                fold (\<lambda>num_k. fold (\<lambda>num_j. fold (\<lambda>num_i Nodes.
                        let node_rlid = node_rid e num_i num_j num_k;
                            Nodes = set2 Nodes node_rlid 0 (HexN_Nodes_1d e ! num_i);
                            Nodes = set2 Nodes node_rlid 1 (HexN_Nodes_1d e ! num_j)
                        in set2 Nodes node_rlid 2 (HexN_Nodes_1d e ! num_k))
                      [0..<num_nodes_1d]) [0..<num_nodes_1d]) [0..<num_nodes_1d]
                  (HexN_Nodes e)\<rparr>
      in e\<lparr>HexN_Verts_1d :=
             fst (fold (\<lambda>i (Verts_1d, vert_id). (Verts_1d[vert_id := HexN_Nodes_1d e ! i], vert_id + 1))
                    (if element_order = 0 then [0..<num_nodes_1d] else every_other num_nodes_1d)
                    (HexN_Verts_1d e, 0))\<rparr>)"

definition setup_HexN :: "(real list \<Rightarrow> nat \<Rightarrow> real list) \<Rightarrow> nat \<Rightarrow> HexN" where
  "setup_HexN lobatto_nodes_1D elem_order =
     (let e = (if elem_order = 0
               then \<lparr>num_nodes_1d = 2, num_nodes = 2 ^ 3,
                     num_verts_1d = 2, num_verts = 2 ^ 3, num_basis = 2 ^ 3,
                     order = elem_order + 1,
                     HexN_Nodes_1d = CArray (2 ^ 3), HexN_Nodes = CArray2 (2 ^ 3) 3 0,
                     HexN_Verts_1d = CArray (2 ^ 3), HexN_Verts = CArray2 (2 ^ 3) 3 0,
                     Vert_Node_map = replicate (2 ^ 3) 0\<rparr>
               else \<lparr>num_nodes_1d = 2 * elem_order + 1, num_nodes = (2 * elem_order + 1) ^ 3,
                     num_verts_1d = elem_order + 1, num_verts = (elem_order + 1) ^ 3,
                     num_basis = (elem_order + 1) ^ 3,
                     order = elem_order,
                     HexN_Nodes_1d = CArray ((2 * elem_order + 1) ^ 3),
                     HexN_Nodes = CArray2 ((2 * elem_order + 1) ^ 3) 3 0,
                     HexN_Verts_1d = CArray ((elem_order + 1) ^ 3),
                     HexN_Verts = CArray2 ((elem_order + 1) ^ 3) 3 0,
                     Vert_Node_map = replicate ((elem_order + 1) ^ 3) 0\<rparr>);
          e = create_lobatto_nodes lobatto_nodes_1D e elem_order;
          steps = (if elem_order = 0 then [0..<num_nodes_1d e] else every_other (num_nodes_1d e))
      in e\<lparr>Vert_Node_map :=
             fst (fold (\<lambda>k. fold (\<lambda>j. fold (\<lambda>i (Vert_Node_map, vert_rid).
                          let node_id = node_rid e i j k
                          in (Vert_Node_map[vert_rid := node_id], vert_rid + 1))
                        steps) steps) steps
                    (Vert_Node_map e, 0))\<rparr>)"

text \<open>
  A node generator that returns a repeated coordinate, to run the construction on a
  degenerate node set: the seven nodes it writes put the vertices of a third-order
  element (nodes 0, 2, 4, 6) at \<open>-1, 0, 0, 1\<close>.
\<close>

definition repeated_nodes_1D :: "real list \<Rightarrow> nat \<Rightarrow> real list" where
  "repeated_nodes_1D nodes num = [-1, -1/2, 0, 0, 0, 1/2, 1] @ drop 7 nodes"

subsection \<open>The one-dimensional Lagrange evaluators of HexN\<close>

text \<open>
  \<^verbatim>\<open>HexN::lagrange_basis_1D(interp, x_point)\<close>. \<open>basis_1D_step\<close> is the body of the
  loop over \<^verbatim>\<open>vert_j\<close>, acting on the locals \<^verbatim>\<open>numerator\<close>, \<^verbatim>\<open>denominator\<close> and
  \<^verbatim>\<open>interpolant\<close>: the quotient is stored on every pass, whether or not the factors were
  multiplied in. The outer loop writes \<^verbatim>\<open>interp(vert_i)\<close>.
\<close>

definition basis_1D_step ::
  "HexN \<Rightarrow> real \<Rightarrow> nat \<Rightarrow> nat \<Rightarrow> real \<times> real \<times> real_t \<Rightarrow> real \<times> real \<times> real_t" where
  "basis_1D_step e x_point vert_i vert_j = (\<lambda>(numerator, denominator, interpolant).
     let (numerator, denominator) =
           (if vert_j \<noteq> vert_i
            then (numerator * (x_point - HexN_Verts_1d e ! vert_j),
                  denominator * (HexN_Verts_1d e ! vert_i - HexN_Verts_1d e ! vert_j))
            else (numerator, denominator))
     in (numerator, denominator, fdiv numerator denominator))"

definition lagrange_basis_1D :: "HexN \<Rightarrow> real_t list \<Rightarrow> real \<Rightarrow> real_t list" where
  "lagrange_basis_1D e interp x_point =
     fold (\<lambda>vert_i interp.
             case fold (basis_1D_step e x_point vert_i) [0..<num_verts_1d e] (1, 1, Some 1) of
               (numerator, denominator, interpolant) \<Rightarrow> interp[vert_i := interpolant])
          [0..<num_verts_1d e] interp"

text \<open>
  \<^verbatim>\<open>HexN::lagrange_derivative_1D(derivative, x_point)\<close>. \<open>product_gradient\<close> is the
  innermost loop (over \<^verbatim>\<open>N\<close>), \<open>derivative_1D_step\<close> the body of the loop over
  \<^verbatim>\<open>vert_j\<close> on the locals \<^verbatim>\<open>denominator\<close>, \<^verbatim>\<open>num_gradient\<close> and \<^verbatim>\<open>gradient\<close>.
\<close>

definition product_gradient :: "HexN \<Rightarrow> real \<Rightarrow> nat \<Rightarrow> nat \<Rightarrow> real" where
  "product_gradient e x_point vert_i vert_j =
     fold (\<lambda>N product_gradient.
             if N \<noteq> vert_j \<and> N \<noteq> vert_i
             then product_gradient * (x_point - HexN_Verts_1d e ! N)
             else product_gradient)
          [0..<num_verts_1d e] 1"

definition derivative_1D_step ::
  "HexN \<Rightarrow> real \<Rightarrow> nat \<Rightarrow> nat \<Rightarrow> real \<times> real \<times> real_t \<Rightarrow> real \<times> real \<times> real_t" where
  "derivative_1D_step e x_point vert_i vert_j = (\<lambda>(denominator, num_gradient, gradient).
     let (denominator, num_gradient) =
           (if vert_j \<noteq> vert_i
            then (denominator * (HexN_Verts_1d e ! vert_i - HexN_Verts_1d e ! vert_j),
                  num_gradient + product_gradient e x_point vert_i vert_j)
            else (denominator, num_gradient))
     in (denominator, num_gradient, fdiv num_gradient denominator))"

definition lagrange_derivative_1D :: "HexN \<Rightarrow> real_t list \<Rightarrow> real \<Rightarrow> real_t list" where
  "lagrange_derivative_1D e derivative x_point =
     fold (\<lambda>vert_i derivative.
             case fold (derivative_1D_step e x_point vert_i) [0..<num_verts_1d e] (1, 0, Some 0) of
               (denominator, num_gradient, gradient) \<Rightarrow> derivative[vert_i := gradient])
          [0..<num_verts_1d e] derivative"

subsection \<open>The tensor-product basis of HexN and its partial derivatives\<close>

text \<open>
  \<^verbatim>\<open>HexN::basis\<close> and the three \<^verbatim>\<open>partial_*_basis\<close> functions share two loops.
  \<open>save_axis N d\<close> is
  \<^verbatim>\<open>for (i = 0; i < N; i++) { val_3d(i, d) = val_1d(i); val_1d(i) = 0.0; }\<close>,
  and \<open>tensor_loop e f\<close> is the nest over \<^verbatim>\<open>k\<close>, \<^verbatim>\<open>j\<close>, \<^verbatim>\<open>i\<close> that writes \<open>f i j k\<close> to
  cell \<^verbatim>\<open>vert_rid(i, j, k)\<close> of the output array. The scratch arrays are allocated by
  each call; the point is a \<^verbatim>\<open>CArray\<close> of three coordinates.
\<close>

definition save_axis ::
  "nat \<Rightarrow> nat \<Rightarrow> real_t list list \<times> real_t list \<Rightarrow> real_t list list \<times> real_t list" where
  "save_axis N d =
     fold (\<lambda>i (val_3d, val_1d). (set2 val_3d i d (val_1d ! i), val_1d[i := Some 0])) [0..<N]"

definition tensor_loop ::
  "HexN \<Rightarrow> (nat \<Rightarrow> nat \<Rightarrow> nat \<Rightarrow> real_t) \<Rightarrow> real_t list \<Rightarrow> real_t list" where
  "tensor_loop e f =
     fold (\<lambda>k. fold (\<lambda>j. fold (\<lambda>i basis. basis[vert_rid e i j k := f i j k])
                               [0..<num_verts_1d e])
                    [0..<num_verts_1d e])
          [0..<num_verts_1d e]"

definition basis :: "HexN \<Rightarrow> real_t list \<Rightarrow> real list \<Rightarrow> real_t list" where
  "basis e basis_out point =
     (let val_1d = replicate (num_verts_1d e) None;
          val_3d = CArray2 (num_verts_1d e) 3 None;
          val_1d = lagrange_basis_1D e val_1d (point ! 0);
          (val_3d, val_1d) = save_axis (num_verts_1d e) 0 (val_3d, val_1d);
          val_1d = lagrange_basis_1D e val_1d (point ! 1);
          (val_3d, val_1d) = save_axis (num_verts_1d e) 1 (val_3d, val_1d);
          val_1d = lagrange_basis_1D e val_1d (point ! 2);
          (val_3d, val_1d) = save_axis (num_verts_1d e) 2 (val_3d, val_1d)
      in tensor_loop e
           (\<lambda>i j k. fmul (fmul (val_3d ! i ! 0) (val_3d ! j ! 1)) (val_3d ! k ! 2)) basis_out)"

definition partial_xi_basis :: "HexN \<Rightarrow> real_t list \<Rightarrow> real list \<Rightarrow> real_t list" where
  "partial_xi_basis e partial_xi point =
     (let val_1d = replicate (num_verts_1d e) None;
          val_3d = CArray2 (num_verts_1d e) 3 None;
          Dval_1d = replicate (num_verts_1d e) None;
          Dval_3d = CArray2 (num_verts_1d e) 3 None;
          Dval_1d = lagrange_derivative_1D e Dval_1d (point ! 0);
          (Dval_3d, Dval_1d) = save_axis (num_verts_1d e) 0 (Dval_3d, Dval_1d);
          val_1d = lagrange_basis_1D e val_1d (point ! 1);
          (val_3d, val_1d) = save_axis (num_verts_1d e) 1 (val_3d, val_1d);
          val_1d = lagrange_basis_1D e val_1d (point ! 2);
          (val_3d, val_1d) = save_axis (num_verts_1d e) 2 (val_3d, val_1d)
      in tensor_loop e
           (\<lambda>i j k. fmul (fmul (Dval_3d ! i ! 0) (val_3d ! j ! 1)) (val_3d ! k ! 2)) partial_xi)"

definition partial_eta_basis :: "HexN \<Rightarrow> real_t list \<Rightarrow> real list \<Rightarrow> real_t list" where
  "partial_eta_basis e partial_eta point =
     (let val_1d = replicate (num_verts_1d e) None;
          val_3d = CArray2 (num_verts_1d e) 3 None;
          Dval_1d = replicate (num_verts_1d e) None;
          Dval_3d = CArray2 (num_verts_1d e) 3 None;
          val_1d = lagrange_basis_1D e val_1d (point ! 0);
          (val_3d, val_1d) = save_axis (num_verts_1d e) 0 (val_3d, val_1d);
          Dval_1d = lagrange_derivative_1D e Dval_1d (point ! 1);
          (Dval_3d, Dval_1d) = save_axis (num_verts_1d e) 1 (Dval_3d, Dval_1d);
          val_1d = lagrange_basis_1D e val_1d (point ! 2);
          (val_3d, val_1d) = save_axis (num_verts_1d e) 2 (val_3d, val_1d)
      in tensor_loop e
           (\<lambda>i j k. fmul (fmul (val_3d ! i ! 0) (Dval_3d ! j ! 1)) (val_3d ! k ! 2)) partial_eta)"

text \<open>
  In \<^verbatim>\<open>partial_mu_basis\<close> the third saving loop stores \<^verbatim>\<open>Dval_1d\<close> into column 2 of
  \<^verbatim>\<open>Dval_3d\<close> but zeroes \<^verbatim>\<open>val_1d\<close>, so it is written out.
\<close>

definition partial_mu_basis :: "HexN \<Rightarrow> real_t list \<Rightarrow> real list \<Rightarrow> real_t list" where
  "partial_mu_basis e partial_mu point =
     (let val_1d = replicate (num_verts_1d e) None;
          val_3d = CArray2 (num_verts_1d e) 3 None;
          Dval_1d = replicate (num_verts_1d e) None;
          Dval_3d = CArray2 (num_verts_1d e) 3 None;
          val_1d = lagrange_basis_1D e val_1d (point ! 0);
          (val_3d, val_1d) = save_axis (num_verts_1d e) 0 (val_3d, val_1d);
          val_1d = lagrange_basis_1D e val_1d (point ! 1);
          (val_3d, val_1d) = save_axis (num_verts_1d e) 1 (val_3d, val_1d);
          Dval_1d = lagrange_derivative_1D e Dval_1d (point ! 2);
          (Dval_3d, val_1d) =
             fold (\<lambda>i (Dval_3d, val_1d). (set2 Dval_3d i 2 (Dval_1d ! i), val_1d[i := Some 0]))
               [0..<num_verts_1d e] (Dval_3d, val_1d)
      in tensor_loop e
           (\<lambda>i j k. fmul (fmul (val_3d ! i ! 0) (val_3d ! j ! 1)) (Dval_3d ! k ! 2)) partial_mu)"

section \<open>The arbitrary-order quadrilateral QuadN\<close>

text \<open>
  \<^verbatim>\<open>QuadN::lagrange_1D(interp, Dinterp, x_point, xi_point, orderN)\<close> computes values and
  derivatives in one pass over the \<open>orderN + 1\<close> nodes \<^verbatim>\<open>xi_point\<close> handed in by the
  caller. \<open>lagrange_1D_step\<close> is the body of the loop over \<^verbatim>\<open>j\<close> on the locals \<^verbatim>\<open>n\<close>,
  \<^verbatim>\<open>d\<close>, \<^verbatim>\<open>c\<close>, \<^verbatim>\<open>p\<close> and on \<^verbatim>\<open>q\<close>, which is declared before the loop over \<^verbatim>\<open>i\<close>
  and so survives from one \<^verbatim>\<open>i\<close> to the next. The arrays \<^verbatim>\<open>num\<close> and \<^verbatim>\<open>denom\<close> of
  the source are never read or written and are left out.
\<close>

definition lagrange_1D_step ::
  "real \<Rightarrow> real list \<Rightarrow> nat \<Rightarrow> nat \<Rightarrow> nat
    \<Rightarrow> real \<times> real \<times> real_t \<times> real \<times> real_t \<Rightarrow> real \<times> real \<times> real_t \<times> real \<times> real_t" where
  "lagrange_1D_step x_point xi_point orderN i j = (\<lambda>(n, d, c, p, q).
     let (n, d, p) =
           (if j \<noteq> i
            then (n * (x_point - xi_point ! j),
                  d * (xi_point ! i - xi_point ! j),
                  p + fold (\<lambda>N s. if N \<noteq> j \<and> N \<noteq> i then s * (x_point - xi_point ! N) else s)
                        [0..<orderN + 1] 1)
            else (n, d, p))
     in (n, d, fdiv n d, p, fdiv p d))"

definition lagrange_1D ::
  "real_t list \<Rightarrow> real_t list \<Rightarrow> real \<Rightarrow> real list \<Rightarrow> nat \<Rightarrow> real_t list \<times> real_t list" where
  "lagrange_1D interp Dinterp x_point xi_point orderN =
     (case fold (\<lambda>i (interp, Dinterp, q).
                   case fold (lagrange_1D_step x_point xi_point orderN i) [0..<orderN + 1]
                          (1, 1, Some 1, 0, q) of
                     (n, d, c, p, q) \<Rightarrow> (interp[i := c], Dinterp[i := q], q))
                [0..<orderN + 1] (interp, Dinterp, Some 0) of
        (interp, Dinterp, q) \<Rightarrow> (interp, Dinterp))"

section \<open>The Lagrange polynomials\<close>

text \<open>
  The mathematical objects the evaluators are compared with, over the first \<open>N\<close> entries
  of a node array: the basis polynomial
  \<open>\<ell>\<^sub>i(x) = \<Prod>\<^bsub>j\<noteq>i\<^esub> (x - node\<^sub>j) / (node\<^sub>i - node\<^sub>j)\<close> and the numerator-sum form of its
  derivative, \<open>\<Sum>\<^bsub>j\<noteq>i\<^esub> [\<Prod>\<^bsub>k\<noteq>i,k\<noteq>j\<^esub> (x - node\<^sub>k)] / \<Prod>\<^bsub>j\<noteq>i\<^esub> (node\<^sub>i - node\<^sub>j)\<close>.
\<close>

definition lagrange_poly :: "real list \<Rightarrow> nat \<Rightarrow> nat \<Rightarrow> real \<Rightarrow> real" where
  "lagrange_poly nodes N i x = (\<Prod>j \<in> {..<N} - {i}. (x - nodes ! j) / (nodes ! i - nodes ! j))"

definition lagrange_poly_deriv :: "real list \<Rightarrow> nat \<Rightarrow> nat \<Rightarrow> real \<Rightarrow> real" where
  "lagrange_poly_deriv nodes N i x =
     (\<Sum>j \<in> {..<N} - {i}. \<Prod>k \<in> {..<N} - {i, j}. (x - nodes ! k))
       / (\<Prod>j \<in> {..<N} - {i}. (nodes ! i - nodes ! j))"

section \<open>The Kokkos Lagrange element: interpolation and the Jacobian\<close>

text \<open>
  \<^verbatim>\<open>LagrangeProductBasis.h\<close> declares \<^verbatim>\<open>eval_basis\<close>, \<^verbatim>\<open>eval_approx\<close>, \<^verbatim>\<open>eval_jac\<close>,
  \<^verbatim>\<open>eval_det_jac\<close> and \<^verbatim>\<open>eval_inv_jac\<close> over the members \<^verbatim>\<open>N\<close> (nodes per axis),
  \<^verbatim>\<open>Ne\<close> (number of basis functions) and \<^verbatim>\<open>Z\<close> (the node coordinates); the bodies are
  not among the sources. \<^verbatim>\<open>test_lagrange_element.cpp\<close> calls \<^verbatim>\<open>eval_basis\<close> and
  \<^verbatim>\<open>eval_approx\<close> on an element built from \<open>order + 1\<close> equispaced nodes \<^verbatim>\<open>Z\<close>.
\<close>

text \<open>
  Modelled from the spec: the body of \<^verbatim>\<open>eval_basis\<close> is missing. Section 4.3: for a
  flat basis index, decode its multi-index, evaluate each axis's one-dimensional Lagrange
  value at the corresponding coordinate of the point, and multiply the per-axis values.
\<close>

definition eval_basis :: "real list \<Rightarrow> nat \<Rightarrow> nat \<Rightarrow> real list \<Rightarrow> real" where
  "eval_basis Z N I X =
     (case multi_index N I of
        (i, j, k) \<Rightarrow> lagrange_poly Z N i (X ! 0) * lagrange_poly Z N j (X ! 1)
                       * lagrange_poly Z N k (X ! 2))"

text \<open>
  Modelled from the spec: the body of \<^verbatim>\<open>eval_approx\<close> is missing. Section 4.3:
  \<open>eval_approx(coeffs, point) = \<Sum>\<^sub>i coeffs[i] \<cdot> basis(point)[i]\<close>, over the \<open>N\<^sup>3\<close> basis
  functions.
\<close>

definition eval_approx :: "real list \<Rightarrow> nat \<Rightarrow> real list \<Rightarrow> real list \<Rightarrow> real" where
  "eval_approx Z N c X = (\<Sum>I \<leftarrow> [0..<N ^ 3]. c ! I * eval_basis Z N I X)"

text \<open>
  The accumulation loop of \<^verbatim>\<open>test1\<close> in \<^verbatim>\<open>test_lagrange_element.cpp\<close>, which evaluates
  every basis function on its own and adds the weighted values to \<^verbatim>\<open>sum1\<close>, starting
  from 0, for \<^verbatim>\<open>i\<close> from 0 to \<^verbatim>\<open>Ne - 1\<close>.
\<close>

definition test1_sum1 :: "real list \<Rightarrow> nat \<Rightarrow> real list \<Rightarrow> real list \<Rightarrow> real" where
  "test1_sum1 Z N c X = fold (\<lambda>i sum1. sum1 + c ! i * eval_basis Z N i X) [0..<N ^ 3] 0"

text \<open>
  Modelled from the spec: the bodies of \<^verbatim>\<open>eval_jac\<close>, \<^verbatim>\<open>eval_det_jac\<close> and
  \<^verbatim>\<open>eval_inv_jac\<close> are missing. Section 4.4, for dimension 3: the Jacobian is
  \<open>J[a][b] = \<Sum>\<^sub>i vertices[i][a] \<cdot> gradient(point)[i][b]\<close>, its determinant is the closed
  form, and the inverse fails with the SingularMapping condition when the determinant is
  zero (the spec's "numerically zero" is exact zero over exact arithmetic) and is the
  matrix inverse otherwise. The conditions are those of section 7. \<open>gradient\<close> is the
  gradient operation of the basis engine, a parameter here.
\<close>

datatype condition = DegenerateNodeSet | SingularMapping | DimensionMismatch

definition jacobian ::
  "(real list \<Rightarrow> real list list) \<Rightarrow> real list \<Rightarrow> real list list \<Rightarrow> real list list" where
  "jacobian gradient point vertices =
     map (\<lambda>a. map (\<lambda>b. \<Sum>i \<leftarrow> [0..<length vertices]. vertices ! i ! a * gradient point ! i ! b)
                [0..<3])
         [0..<3]"

definition det3 :: "real list list \<Rightarrow> real" where
  "det3 J = J ! 0 ! 0 * (J ! 1 ! 1 * J ! 2 ! 2 - J ! 1 ! 2 * J ! 2 ! 1)
          - J ! 0 ! 1 * (J ! 1 ! 0 * J ! 2 ! 2 - J ! 1 ! 2 * J ! 2 ! 0)
          + J ! 0 ! 2 * (J ! 1 ! 0 * J ! 2 ! 1 - J ! 1 ! 1 * J ! 2 ! 0)"

definition det_jacobian ::
  "(real list \<Rightarrow> real list list) \<Rightarrow> real list \<Rightarrow> real list list \<Rightarrow> real" where
  "det_jacobian gradient point vertices = det3 (jacobian gradient point vertices)"

definition cofactor3 :: "real list list \<Rightarrow> nat \<Rightarrow> nat \<Rightarrow> real" where
  "cofactor3 J a b =
     J ! ((a + 1) mod 3) ! ((b + 1) mod 3) * J ! ((a + 2) mod 3) ! ((b + 2) mod 3)
     - J ! ((a + 1) mod 3) ! ((b + 2) mod 3) * J ! ((a + 2) mod 3) ! ((b + 1) mod 3)"

definition inv_jacobian ::
  "(real list \<Rightarrow> real list list) \<Rightarrow> real list \<Rightarrow> real list list \<Rightarrow> condition + real list list" where
  "inv_jacobian gradient point vertices =
     (let J = jacobian gradient point vertices;
          d = det3 J
      in if d = 0 then Inl SingularMapping
         else Inr (map (\<lambda>a. map (\<lambda>b. cofactor3 J b a / d) [0..<3]) [0..<3]))"

text \<open>The product of two 3 x 3 matrices and the identity, to state what an inverse is.\<close>

definition mat_mul3 :: "real list list \<Rightarrow> real list list \<Rightarrow> real list list" where
  "mat_mul3 A B = map (\<lambda>a. map (\<lambda>b. \<Sum>c \<leftarrow> [0..<3]. A ! a ! c * B ! c ! b) [0..<3]) [0..<3]"

definition identity3 :: "real list list" where
  "identity3 = [[1, 0, 0], [0, 1, 0], [0, 0, 1]]"

text \<open>
  A sample input for the Jacobian: the gradients of the eight trilinear shape functions at
  the centre of the reference cube (each partial is \<open>\<plusminus>1/8\<close>), the vertices of the
  cube \<open>[-1, 1]\<^sup>3\<close>, and the same vertices flattened into the plane \<open>z = 0\<close>, an element of
  zero volume.
\<close>

definition centre_gradient :: "real list \<Rightarrow> real list list" where
  "centre_gradient point =
     [[-1/8, -1/8, -1/8], [1/8, -1/8, -1/8], [-1/8, 1/8, -1/8], [1/8, 1/8, -1/8],
      [-1/8, -1/8, 1/8], [1/8, -1/8, 1/8], [-1/8, 1/8, 1/8], [1/8, 1/8, 1/8]]"

definition cube_vertices :: "real list list" where
  "cube_vertices =
     [[-1, -1, -1], [1, -1, -1], [-1, 1, -1], [1, 1, -1],
      [-1, -1, 1], [1, -1, 1], [-1, 1, 1], [1, 1, 1]]"

definition flat_vertices :: "real list list" where
  "flat_vertices =
     [[-1, -1, 0], [1, -1, 0], [-1, 1, 0], [1, 1, 0],
      [-1, -1, 0], [1, -1, 0], [-1, 1, 0], [1, 1, 0]]"

subsection \<open>A sample element\<close>

text \<open>
  The data members of a second-order element over the vertices \<open>-1, 0, 1\<close> (five nodes
  per axis, every other one a vertex), used to run the theorems below on an input. The
  evaluators read the sizes and the vertex coordinates only; the node table and the
  vertex-to-node map are left empty.
\<close>

definition quadratic_hex :: HexN where
  "quadratic_hex =
     \<lparr>num_nodes_1d = 5, num_nodes = 125, num_verts_1d = 3, num_verts = 27, num_basis = 27,
      order = 2, HexN_Nodes_1d = [-1, -1/2, 0, 1/2, 1] @ replicate 120 0, HexN_Nodes = [],
      HexN_Verts_1d = [-1, 0, 1] @ replicate 24 0, HexN_Verts = replicate 27 [0, 0, 0],
      Vert_Node_map = []\<rparr>"

section \<open>Results\<close>

subsection \<open>What the loops compute\<close>

text \<open>
  Each loop of the evaluators is a fold over an index range; the lemmas below give the
  closed form of its final state, by induction on the number of passes.
\<close>

lemma diff_Suc_other:
  assumes "m \<noteq> i"
  shows "{..<Suc m} - {i} = insert m ({..<m} - {i})"
  using assms by auto

lemma diff_Suc_self: "{..<Suc i} - {i} = {..<i} - {i}"
  by auto

lemma basis_inner_fold:
  "fold (basis_1D_step e x i) [0..<m] (1, 1, Some 1) =
     ((\<Prod>j \<in> {..<m} - {i}. (x - HexN_Verts_1d e ! j)),
      (\<Prod>j \<in> {..<m} - {i}. (HexN_Verts_1d e ! i - HexN_Verts_1d e ! j)),
      if m = 0 then Some 1
      else fdiv (\<Prod>j \<in> {..<m} - {i}. (x - HexN_Verts_1d e ! j))
                (\<Prod>j \<in> {..<m} - {i}. (HexN_Verts_1d e ! i - HexN_Verts_1d e ! j)))"
proof (induction m)
  case 0
  show ?case by simp
next
  case (Suc m)
  show ?case
  proof (cases "m = i")
    case True
    then show ?thesis
      using Suc by (simp add: basis_1D_step_def diff_Suc_self)
  next
    case False
    then show ?thesis
      using Suc by (simp add: basis_1D_step_def diff_Suc_other mult.commute)
  qed
qed

lemma fold_update_upt:
  assumes "n \<le> length a"
  shows "fold (\<lambda>k a. a[k := f k]) [0..<n] a = map f [0..<n] @ drop n a"
  using assms
proof (induction n)
  case 0
  show ?case by simp
next
  case (Suc n)
  then have n: "n < length a" by simp
  have "fold (\<lambda>k a. a[k := f k]) [0..<Suc n] a = (map f [0..<n] @ drop n a)[n := f n]"
    using Suc by simp
  also have "\<dots> = map f [0..<n] @ (drop n a)[0 := f n]"
    by (simp add: list_update_append)
  also have "drop n a = a ! n # drop (Suc n) a"
    using n by (simp add: Cons_nth_drop_Suc)
  finally show ?case by simp
qed

lemma fold_update_upt_nth:
  assumes "i < n" "n \<le> length a"
  shows "fold (\<lambda>k a. a[k := f k]) [0..<n] a ! i = f i"
  using assms by (simp add: fold_update_upt nth_append)

lemma product_gradient_fold:
  "fold (\<lambda>N s. if N \<noteq> j \<and> N \<noteq> i then s * (x - v ! N) else s) [0..<m] 1
     = (\<Prod>k \<in> {..<m} - {i, j}. (x - v ! k))"
proof (induction m)
  case 0
  show ?case by simp
next
  case (Suc m)
  show ?case
  proof (cases "m \<noteq> j \<and> m \<noteq> i")
    case True
    then have "{..<Suc m} - {i, j} = insert m ({..<m} - {i, j})" by auto
    then show ?thesis using Suc True by (simp add: mult.commute)
  next
    case False
    then have "{..<Suc m} - {i, j} = {..<m} - {i, j}" by auto
    then show ?thesis using Suc False by auto
  qed
qed

lemma derivative_inner_fold:
  "fold (derivative_1D_step e x i) [0..<m] (1, 0, Some 0) =
     ((\<Prod>j \<in> {..<m} - {i}. (HexN_Verts_1d e ! i - HexN_Verts_1d e ! j)),
      (\<Sum>j \<in> {..<m} - {i}. \<Prod>k \<in> {..<num_verts_1d e} - {i, j}. (x - HexN_Verts_1d e ! k)),
      if m = 0 then Some 0
      else fdiv (\<Sum>j \<in> {..<m} - {i}. \<Prod>k \<in> {..<num_verts_1d e} - {i, j}. (x - HexN_Verts_1d e ! k))
                (\<Prod>j \<in> {..<m} - {i}. (HexN_Verts_1d e ! i - HexN_Verts_1d e ! j)))"
proof (induction m)
  case 0
  show ?case by simp
next
  case (Suc m)
  show ?case
  proof (cases "m = i")
    case True
    then show ?thesis
      using Suc by (simp add: derivative_1D_step_def diff_Suc_self)
  next
    case False
    then show ?thesis
      using Suc
      by (simp add: derivative_1D_step_def diff_Suc_other mult.commute add.commute
          product_gradient_def product_gradient_fold)
  qed
qed

lemma fold_upt_Suc: "fold F [0..<Suc m] s = F m (fold F [0..<m] s)"
  by simp

lemma lagrange_1D_inner_fold:
  "fold (lagrange_1D_step x v orderN i) [0..<m] (1, 1, Some 1, 0, q0) =
     ((\<Prod>j \<in> {..<m} - {i}. (x - v ! j)),
      (\<Prod>j \<in> {..<m} - {i}. (v ! i - v ! j)),
      (if m = 0 then Some 1
       else fdiv (\<Prod>j \<in> {..<m} - {i}. (x - v ! j)) (\<Prod>j \<in> {..<m} - {i}. (v ! i - v ! j))),
      (\<Sum>j \<in> {..<m} - {i}. \<Prod>k \<in> {..<orderN + 1} - {i, j}. (x - v ! k)),
      (if m = 0 then q0
       else fdiv (\<Sum>j \<in> {..<m} - {i}. \<Prod>k \<in> {..<orderN + 1} - {i, j}. (x - v ! k))
                 (\<Prod>j \<in> {..<m} - {i}. (v ! i - v ! j))))"
proof (induction m)
  case 0
  show ?case by simp
next
  case (Suc m)
  have pg: "fold (\<lambda>N s. if N \<noteq> m \<and> N \<noteq> i then s * (x - v ! N) else s) [0..<orderN + 1] 1
              = (\<Prod>k \<in> {..<orderN + 1} - {i, m}. (x - v ! k))"
    by (rule product_gradient_fold)
  show ?case
  proof (cases "m = i")
    case True
    then show ?thesis
      unfolding fold_upt_Suc Suc.IH
      by (simp add: lagrange_1D_step_def diff_Suc_self)
  next
    case False
    then show ?thesis
      apply (unfold fold_upt_Suc Suc.IH)
      apply (unfold lagrange_1D_step_def pg)
      apply (simp add: diff_Suc_other mult.commute add.commute)
      done
  qed
qed

lemma denominator_nonzero:
  fixes v :: "real list"
  assumes "distinct (take N v)" "N \<le> length v" "i < N"
  shows "(\<Prod>j \<in> {..<N} - {i}. (v ! i - v ! j)) \<noteq> 0"
proof
  assume "(\<Prod>j \<in> {..<N} - {i}. (v ! i - v ! j)) = 0"
  then obtain j where j: "j < N" "j \<noteq> i" "v ! i = v ! j"
    by auto
  have eq: "take N v ! i = take N v ! j"
    using j assms by simp
  have len: "i < length (take N v)" "j < length (take N v)"
    using j assms by simp_all
  have "i = j"
    using nth_eq_iff_index_eq [OF assms(1) len] eq by blast
  with j show False by simp
qed

lemma lagrange_basis_1D_eq:
  assumes "num_verts_1d e \<le> length interp"
  shows "lagrange_basis_1D e interp x =
     map (\<lambda>i. fdiv (\<Prod>j \<in> {..<num_verts_1d e} - {i}. (x - HexN_Verts_1d e ! j))
                    (\<Prod>j \<in> {..<num_verts_1d e} - {i}. (HexN_Verts_1d e ! i - HexN_Verts_1d e ! j)))
         [0..<num_verts_1d e]
     @ drop (num_verts_1d e) interp"
proof (cases "num_verts_1d e = 0")
  case True
  then show ?thesis by (simp add: lagrange_basis_1D_def)
next
  case False
  then show ?thesis
    unfolding lagrange_basis_1D_def basis_inner_fold
    using assms by (simp add: fold_update_upt)
qed

lemma lagrange_derivative_1D_eq:
  assumes "num_verts_1d e \<le> length derivative"
  shows "lagrange_derivative_1D e derivative x =
     map (\<lambda>i. fdiv (\<Sum>j \<in> {..<num_verts_1d e} - {i}.
                       \<Prod>k \<in> {..<num_verts_1d e} - {i, j}. (x - HexN_Verts_1d e ! k))
                    (\<Prod>j \<in> {..<num_verts_1d e} - {i}. (HexN_Verts_1d e ! i - HexN_Verts_1d e ! j)))
         [0..<num_verts_1d e]
     @ drop (num_verts_1d e) derivative"
proof (cases "num_verts_1d e = 0")
  case True
  then show ?thesis by (simp add: lagrange_derivative_1D_def)
next
  case False
  then show ?thesis
    unfolding lagrange_derivative_1D_def derivative_inner_fold
    using assms by (simp add: fold_update_upt)
qed

lemma fold_update2_upt:
  assumes "m \<le> length I" "m \<le> length D"
  shows "fold (\<lambda>i (I, D, q). (I[i := C i], D[i := Q i], Q i)) [0..<m] (I, D, q0) =
           (map C [0..<m] @ drop m I, map Q [0..<m] @ drop m D, if m = 0 then q0 else Q (m - 1))"
  using assms
proof (induction m)
  case 0
  show ?case by simp
next
  case (Suc m)
  then have m: "m < length I" "m < length D" by simp_all
  have I: "(map C [0..<m] @ drop m I)[m := C m] = map C [0..<Suc m] @ drop (Suc m) I"
    using m by (simp add: list_update_append Cons_nth_drop_Suc [symmetric])
  have D: "(map Q [0..<m] @ drop m D)[m := Q m] = map Q [0..<Suc m] @ drop (Suc m) D"
    using m by (simp add: list_update_append Cons_nth_drop_Suc [symmetric])
  show ?case
    unfolding fold_upt_Suc using Suc I D by simp
qed

lemma lagrange_1D_eq:
  assumes "orderN + 1 \<le> length interp" "orderN + 1 \<le> length Dinterp"
  shows "lagrange_1D interp Dinterp x v orderN =
     (map (\<lambda>i. fdiv (\<Prod>j \<in> {..<orderN + 1} - {i}. (x - v ! j))
                     (\<Prod>j \<in> {..<orderN + 1} - {i}. (v ! i - v ! j)))
          [0..<orderN + 1]
      @ drop (orderN + 1) interp,
      map (\<lambda>i. fdiv (\<Sum>j \<in> {..<orderN + 1} - {i}. \<Prod>k \<in> {..<orderN + 1} - {i, j}. (x - v ! k))
                     (\<Prod>j \<in> {..<orderN + 1} - {i}. (v ! i - v ! j)))
          [0..<orderN + 1]
      @ drop (orderN + 1) Dinterp)"
  unfolding lagrange_1D_def lagrange_1D_inner_fold
  using assms fold_update2_upt [of "orderN + 1" interp Dinterp
      "\<lambda>i. fdiv (\<Prod>j \<in> {..<orderN + 1} - {i}. (x - v ! j))
                     (\<Prod>j \<in> {..<orderN + 1} - {i}. (v ! i - v ! j))"
      "\<lambda>i. fdiv (\<Sum>j \<in> {..<orderN + 1} - {i}. \<Prod>k \<in> {..<orderN + 1} - {i, j}. (x - v ! k))
                     (\<Prod>j \<in> {..<orderN + 1} - {i}. (v ! i - v ! j))" "Some 0"]
  by simp

subsection \<open>The one-dimensional evaluators return the Lagrange polynomials\<close>

text \<open>
  With distinct nodes no denominator vanishes, so every division of the evaluators is a
  division of finite numbers by a non-zero number.
\<close>

lemma lagrange_poly_quotient:
  "lagrange_poly v N i x =
     (\<Prod>j \<in> {..<N} - {i}. (x - v ! j)) / (\<Prod>j \<in> {..<N} - {i}. (v ! i - v ! j))"
  by (simp add: lagrange_poly_def prod_dividef)

lemma lagrange_basis_1D_nth:
  assumes "num_verts_1d e = N" "N \<le> length (HexN_Verts_1d e)"
    and "distinct (take N (HexN_Verts_1d e))" "i < N" "N \<le> length interp"
  shows "lagrange_basis_1D e interp x ! i = Some (lagrange_poly (HexN_Verts_1d e) N i x)"
  using assms denominator_nonzero [of N "HexN_Verts_1d e" i]
  by (simp add: lagrange_basis_1D_eq nth_append lagrange_poly_quotient fdiv_def)

lemma lagrange_derivative_1D_nth:
  assumes "num_verts_1d e = N" "N \<le> length (HexN_Verts_1d e)"
    and "distinct (take N (HexN_Verts_1d e))" "i < N" "N \<le> length derivative"
  shows "lagrange_derivative_1D e derivative x ! i
           = Some (lagrange_poly_deriv (HexN_Verts_1d e) N i x)"
  using assms denominator_nonzero [of N "HexN_Verts_1d e" i]
  by (simp add: lagrange_derivative_1D_eq nth_append lagrange_poly_deriv_def fdiv_def)

lemma lagrange_1D_nth:
  assumes "orderN + 1 = N" "N \<le> length v" "distinct (take N v)" "i < N"
    and "N \<le> length interp" "N \<le> length Dinterp"
  shows "fst (lagrange_1D interp Dinterp x v orderN) ! i = Some (lagrange_poly v N i x)"
    and "snd (lagrange_1D interp Dinterp x v orderN) ! i = Some (lagrange_poly_deriv v N i x)"
proof -
  have d: "(\<Prod>j \<in> {..<orderN + 1} - {i}. (v ! i - v ! j)) \<noteq> 0"
    using denominator_nonzero [of N v i] assms by simp
  have i: "i < orderN + 1" "orderN + 1 \<le> length interp" "orderN + 1 \<le> length Dinterp"
    using assms by simp_all
  show "fst (lagrange_1D interp Dinterp x v orderN) ! i = Some (lagrange_poly v N i x)"
    unfolding lagrange_1D_eq [OF i(2,3)] lagrange_poly_quotient assms(1) [symmetric]
    using i d by (simp add: nth_append fdiv_def del: upt_Suc)
  show "snd (lagrange_1D interp Dinterp x v orderN) ! i = Some (lagrange_poly_deriv v N i x)"
    unfolding lagrange_1D_eq [OF i(2,3)] lagrange_poly_deriv_def assms(1) [symmetric]
    using i d by (simp add: nth_append fdiv_def del: upt_Suc)
qed

lemma lagrange_poly_DERIV:
  "DERIV (lagrange_poly v N i) x :> lagrange_poly_deriv v N i x"
proof -
  have "((\<lambda>u. \<Prod>j \<in> {..<N} - {i}. (u - v ! j)) has_field_derivative
           (\<Sum>j \<in> {..<N} - {i}. 1 * (\<Prod>k \<in> ({..<N} - {i}) - {j}. (x - v ! k)))) (at x)"
    by (rule has_field_derivative_prod) (auto intro!: derivative_eq_intros)
  moreover have "({..<N} - {i}) - {j} = {..<N} - {i, j}" for j
    by auto
  ultimately have "((\<lambda>u. \<Prod>j \<in> {..<N} - {i}. (u - v ! j)) has_field_derivative
           (\<Sum>j \<in> {..<N} - {i}. \<Prod>k \<in> {..<N} - {i, j}. (x - v ! k))) (at x)"
    by simp
  then have "((\<lambda>u. (\<Prod>j \<in> {..<N} - {i}. (u - v ! j)) / (\<Prod>j \<in> {..<N} - {i}. (v ! i - v ! j)))
           has_field_derivative lagrange_poly_deriv v N i x) (at x)"
    unfolding lagrange_poly_deriv_def by (rule DERIV_cdivide)
  then show ?thesis
    by (simp add: lagrange_poly_quotient [abs_def])
qed

subsection \<open>Properties of the Lagrange polynomials\<close>

text \<open>
  The value at a node, and the partition of unity. The latter is by induction on the
  number of nodes: adding a node \<open>a\<close> multiplies \<open>\<ell>\<^sub>i(x)\<close> by \<open>(x - a)/(node\<^sub>i - a)\<close>,
  which is \<open>1 - (x - node\<^sub>i)/(a - node\<^sub>i)\<close>, and the correction terms add up, by the
  induction hypothesis at \<open>a\<close>, to the new basis polynomial.
\<close>

lemma nodes_distinct_nth:
  fixes v :: "real list"
  assumes "distinct (take N v)" "N \<le> length v" "i < N" "j < N" "i \<noteq> j"
  shows "v ! i \<noteq> v ! j"
proof
  assume "v ! i = v ! j"
  then have eq: "take N v ! i = take N v ! j"
    using assms by simp
  have len: "i < length (take N v)" "j < length (take N v)"
    using assms by simp_all
  show False
    using nth_eq_iff_index_eq [OF assms(1) len] eq assms(5) by blast
qed

lemma lagrange_poly_at_node:
  assumes "distinct (take N v)" "N \<le> length v" "i < N" "j < N"
  shows "lagrange_poly v N i (v ! j) = (if i = j then 1 else 0)"
proof (cases "i = j")
  case True
  have "(v ! i - v ! k) / (v ! i - v ! k) = 1" if "k \<in> {..<N} - {i}" for k
    using nodes_distinct_nth [OF assms(1,2,3), of k] that by simp
  then have "lagrange_poly v N i (v ! i) = 1"
    unfolding lagrange_poly_def by (rule prod.neutral [rule_format])
  with True show ?thesis by simp
next
  case False
  then have "j \<in> {..<N} - {i}"
    using assms by simp
  moreover have "(v ! j - v ! j) / (v ! i - v ! j) = 0"
    by simp
  ultimately have "lagrange_poly v N i (v ! j) = 0"
    unfolding lagrange_poly_def by (intro prod_zero) auto
  with False show ?thesis by simp
qed

lemma partition_step_algebra:
  fixes L La Wx Wa D x a vi :: real
  assumes "L * (x - vi) = Wx / D" "La * (a - vi) = Wa / D"
    and "D \<noteq> 0" "Wa \<noteq> 0" "a \<noteq> vi"
  shows "L * ((x - a) / (vi - a)) = L - La * (Wx / Wa)"
proof -
  have Wx: "Wx = L * (x - vi) * D"
    using assms(1,3) by (simp add: field_simps)
  have Wa: "Wa = La * (a - vi) * D"
    using assms(2,3) by (simp add: field_simps)
  have La: "La \<noteq> 0"
    using Wa assms(4) by auto
  have "La * (Wx / Wa) = L * (x - vi) / (a - vi)"
    unfolding Wx Wa using La assms(3,5) by (simp add: field_simps)
  moreover have "L - L * (x - vi) / (a - vi) = L * ((x - a) / (vi - a))"
    using assms(5) by (simp add: field_simps)
  ultimately show ?thesis by simp
qed

lemma lagrange_poly_times_factor:
  assumes "i < N"
  shows "lagrange_poly v N i x * (x - v ! i)
           = (\<Prod>j < N. (x - v ! j)) / (\<Prod>j \<in> {..<N} - {i}. (v ! i - v ! j))"
proof -
  have "(\<Prod>j < N. (x - v ! j)) = (x - v ! i) * (\<Prod>j \<in> {..<N} - {i}. (x - v ! j))"
    using assms by (intro prod.remove) auto
  then show ?thesis
    by (simp add: lagrange_poly_quotient)
qed

lemma lagrange_poly_Suc:
  assumes "i < N"
  shows "lagrange_poly v (Suc N) i x
           = lagrange_poly v N i x * ((x - v ! N) / (v ! i - v ! N))"
proof -
  have "{..<Suc N} - {i} = insert N ({..<N} - {i})"
    using assms by auto
  then show ?thesis
    by (simp add: lagrange_poly_def mult.commute)
qed

lemma lagrange_poly_last:
  "lagrange_poly v (Suc N) N x = (\<Prod>j < N. (x - v ! j)) / (\<Prod>j < N. (v ! N - v ! j))"
proof -
  have "{..<Suc N} - {N} = {..<N}"
    by auto
  then show ?thesis
    by (simp add: lagrange_poly_def prod_dividef)
qed

lemma partition_of_unity:
  assumes "distinct (take N v)" "N \<le> length v" "0 < N"
  shows "(\<Sum>i < N. lagrange_poly v N i x) = 1"
  using assms
proof (induction N arbitrary: x)
  case 0
  then show ?case by simp
next
  case (Suc N)
  show ?case
  proof (cases "N = 0")
    case True
    then show ?thesis by (simp add: lagrange_poly_def)
  next
    case False
    define a where "a = v ! N"
    define W where "W = (\<lambda>y. \<Prod>j < N. (y - v ! j))"
    have len: "N \<le> length v" "N < length v"
      using Suc.prems by simp_all
    have "take (Suc N) v = take N v @ [v ! N]"
      using len by (simp add: take_Suc_conv_app_nth)
    then have dist: "distinct (take N v)"
      using Suc.prems(1) by simp
    have IH: "(\<Sum>i < N. lagrange_poly v N i y) = 1" for y
      using Suc.IH [OF dist len(1)] False by simp
    have ne: "a \<noteq> v ! i" if "i < N" for i
      using nodes_distinct_nth [OF Suc.prems(1,2), of N i] that by (simp add: a_def)
    have Wa: "W a \<noteq> 0"
      using ne by (auto simp: W_def)
    have D: "(\<Prod>j \<in> {..<N} - {i}. (v ! i - v ! j)) \<noteq> 0" if "i < N" for i
      using denominator_nonzero [OF dist len(1) that] .
    have summand: "lagrange_poly v (Suc N) i x
                  = lagrange_poly v N i x - lagrange_poly v N i a * (W x / W a)" if "i < N" for i
    proof -
      have "lagrange_poly v N i x * ((x - a) / (v ! i - a))
              = lagrange_poly v N i x - lagrange_poly v N i a * (W x / W a)"
      proof (rule partition_step_algebra)
        show "lagrange_poly v N i x * (x - v ! i)
                = W x / (\<Prod>j \<in> {..<N} - {i}. (v ! i - v ! j))"
          unfolding W_def by (rule lagrange_poly_times_factor [OF that])
        show "lagrange_poly v N i a * (a - v ! i)
                = W a / (\<Prod>j \<in> {..<N} - {i}. (v ! i - v ! j))"
          unfolding W_def by (rule lagrange_poly_times_factor [OF that])
        show "(\<Prod>j \<in> {..<N} - {i}. (v ! i - v ! j)) \<noteq> 0"
          by (rule D [OF that])
        show "W a \<noteq> 0"
          by (rule Wa)
        show "a \<noteq> v ! i"
          by (rule ne [OF that])
      qed
      then show ?thesis
        by (simp add: lagrange_poly_Suc [OF that] a_def)
    qed
    have last: "lagrange_poly v (Suc N) N x = W x / W a"
      by (simp add: lagrange_poly_last W_def a_def)
    have "(\<Sum>i < Suc N. lagrange_poly v (Suc N) i x)
            = (\<Sum>i < N. lagrange_poly v (Suc N) i x) + lagrange_poly v (Suc N) N x"
      by simp
    also have "(\<Sum>i < N. lagrange_poly v (Suc N) i x)
            = (\<Sum>i < N. lagrange_poly v N i x - lagrange_poly v N i a * (W x / W a))"
      by (rule sum.cong) (simp_all add: summand)
    also have "\<dots> = (\<Sum>i < N. lagrange_poly v N i x)
                      - (\<Sum>i < N. lagrange_poly v N i a) * (W x / W a)"
      unfolding sum_subtractf sum_distrib_right ..
    also have "\<dots> = 1 - W x / W a"
      by (simp add: IH)
    finally show ?thesis
      by (simp add: last)
  qed
qed

subsection \<open>The claims on the one-dimensional evaluators\<close>

text \<open>
  C1. For every array of \<open>N\<close> distinct node coordinates (\<open>N \<ge> 2\<close> in particular), every
  index \<open>i < N\<close> and every evaluation coordinate \<open>x\<close>, both \<^verbatim>\<open>HexN::lagrange_basis_1D\<close>
  and \<^verbatim>\<open>QuadN::lagrange_1D\<close> return for basis index \<open>i\<close> the finite value
  \<open>\<ell>\<^sub>i(x) = \<Prod>\<^bsub>j\<noteq>i\<^esub> (x - node\<^sub>j)/(node\<^sub>i - node\<^sub>j)\<close>, and both
  \<^verbatim>\<open>HexN::lagrange_derivative_1D\<close> and \<^verbatim>\<open>QuadN::lagrange_1D\<close> return the numerator-sum
  form \<open>\<Sum>\<^bsub>j\<noteq>i\<^esub> [\<Prod>\<^bsub>k\<noteq>i,k\<noteq>j\<^esub> (x - node\<^sub>k)] / \<Prod>\<^bsub>j\<noteq>i\<^esub> (node\<^sub>i - node\<^sub>j)\<close>, which is the
  derivative of \<open>\<ell>\<^sub>i\<close> at \<open>x\<close>. The only divisors are the products of node differences, so
  the result is a finite number for every \<open>x\<close>, also when \<open>x\<close> is one of the nodes.
\<close>

theorem lagrange_1D_evaluators:
  fixes e :: HexN
  defines "nodes \<equiv> HexN_Verts_1d e"
  assumes "num_verts_1d e = N" "orderN + 1 = N"
    and "N \<le> length nodes" "distinct (take N nodes)"
    and "N \<le> length interp" "N \<le> length derivative" "i < N"
  shows "lagrange_basis_1D e interp x ! i = Some (lagrange_poly nodes N i x)
    \<and> lagrange_derivative_1D e derivative x ! i = Some (lagrange_poly_deriv nodes N i x)
    \<and> fst (lagrange_1D interp derivative x nodes orderN) ! i = Some (lagrange_poly nodes N i x)
    \<and> snd (lagrange_1D interp derivative x nodes orderN) ! i
         = Some (lagrange_poly_deriv nodes N i x)
    \<and> (\<forall>m < N. lagrange_derivative_1D e derivative (nodes ! m) ! i
         = Some (lagrange_poly_deriv nodes N i (nodes ! m)))
    \<and> (\<forall>m < N. snd (lagrange_1D interp derivative (nodes ! m) nodes orderN) ! i
         = Some (lagrange_poly_deriv nodes N i (nodes ! m)))
    \<and> DERIV (lagrange_poly nodes N i) x :> lagrange_poly_deriv nodes N i x"
proof (intro conjI allI impI)
  show "lagrange_basis_1D e interp x ! i = Some (lagrange_poly nodes N i x)"
    unfolding nodes_def
    by (rule lagrange_basis_1D_nth) (use assms in \<open>simp_all add: nodes_def\<close>)
  show d: "lagrange_derivative_1D e derivative y ! i = Some (lagrange_poly_deriv nodes N i y)" for y
    unfolding nodes_def
    by (rule lagrange_derivative_1D_nth) (use assms in \<open>simp_all add: nodes_def\<close>)
  show "fst (lagrange_1D interp derivative x nodes orderN) ! i = Some (lagrange_poly nodes N i x)"
    by (rule lagrange_1D_nth) (use assms in simp_all)
  show q: "snd (lagrange_1D interp derivative y nodes orderN) ! i
         = Some (lagrange_poly_deriv nodes N i y)" for y
    by (rule lagrange_1D_nth) (use assms in simp_all)
  show "lagrange_derivative_1D e derivative (nodes ! m) ! i
         = Some (lagrange_poly_deriv nodes N i (nodes ! m))" for m
    by (rule d)
  show "snd (lagrange_1D interp derivative (nodes ! m) nodes orderN) ! i
         = Some (lagrange_poly_deriv nodes N i (nodes ! m))" for m
    by (rule q)
  show "DERIV (lagrange_poly nodes N i) x :> lagrange_poly_deriv nodes N i x"
    by (rule lagrange_poly_DERIV)
qed

theorem lagrange_1D_evaluators_witness:
  "num_verts_1d quadratic_hex = 3 \<and> (2::nat) + 1 = 3
   \<and> 3 \<le> length (HexN_Verts_1d quadratic_hex)
   \<and> distinct (take 3 (HexN_Verts_1d quadratic_hex))
   \<and> (3::nat) \<le> length (replicate 3 (None :: real_t)) \<and> (0::nat) < 3
   \<and> HexN_Verts_1d quadratic_hex ! 1 = 0
   \<and> lagrange_basis_1D quadratic_hex (replicate 3 None) 0 ! 0 = Some 0
   \<and> lagrange_derivative_1D quadratic_hex (replicate 3 None) 0 ! 0 = Some (- 1 / 2)
   \<and> lagrange_1D (replicate 3 None) (replicate 3 None) 0 (HexN_Verts_1d quadratic_hex) 2
        = ([Some 0, Some 1, Some 0], [Some (- 1 / 2), Some 0, Some (1 / 2)])"
proof -
  have h: "num_verts_1d quadratic_hex = 3" "(2::nat) + 1 = 3"
    "3 \<le> length (HexN_Verts_1d quadratic_hex)"
    "distinct (take 3 (HexN_Verts_1d quadratic_hex))"
    "(3::nat) \<le> length (replicate 3 (None :: real_t))"
    "(3::nat) \<le> length (replicate 3 (None :: real_t))" "(0::nat) < 3"
    by (simp_all add: quadratic_hex_def numeral_3_eq_3)
  note r = lagrange_1D_evaluators [OF h, of 0]
  have v: "lagrange_poly (HexN_Verts_1d quadratic_hex) 3 0 0 = 0"
    "lagrange_poly_deriv (HexN_Verts_1d quadratic_hex) 3 0 0 = - 1 / 2"
    by code_simp+
  have n: "HexN_Verts_1d quadratic_hex ! 1 = 0"
    by (simp add: quadratic_hex_def)
  have q: "lagrange_1D (replicate 3 None) (replicate 3 None) 0 (HexN_Verts_1d quadratic_hex) 2
        = ([Some 0, Some 1, Some 0], [Some (- 1 / 2), Some 0, Some (1 / 2)])"
    by code_simp
  have b: "lagrange_basis_1D quadratic_hex (replicate 3 None) 0 ! 0 = Some 0"
    using r [THEN conjunct1] v(1) by simp
  have d: "lagrange_derivative_1D quadratic_hex (replicate 3 None) 0 ! 0 = Some (- 1 / 2)"
    using r [THEN conjunct2, THEN conjunct1] v(2) by simp
  show ?thesis
    by (intro conjI h n q b d)
qed

text \<open>
  C2. Partition of unity: for every array of \<open>N \<ge> 1\<close> distinct nodes and every evaluation
  coordinate \<open>x\<close>, inside or outside the reference interval, the \<open>N\<close> values returned by
  \<^verbatim>\<open>HexN::lagrange_basis_1D\<close> and by \<^verbatim>\<open>QuadN::lagrange_1D\<close> are the finite numbers
  \<open>\<ell>\<^sub>0(x), \<dots>, \<ell>\<^bsub>N-1\<^esub>(x)\<close>, and these add up to 1.
\<close>

theorem lagrange_1D_partition_of_unity:
  fixes e :: HexN
  defines "nodes \<equiv> HexN_Verts_1d e"
  assumes "num_verts_1d e = N" "orderN + 1 = N"
    and "N \<le> length nodes" "distinct (take N nodes)"
    and "N \<le> length interp" "N \<le> length Dinterp"
  shows "take N (lagrange_basis_1D e interp x) = map (\<lambda>i. Some (lagrange_poly nodes N i x)) [0..<N]
    \<and> take N (fst (lagrange_1D interp Dinterp x nodes orderN))
         = map (\<lambda>i. Some (lagrange_poly nodes N i x)) [0..<N]
    \<and> (\<Sum>i < N. lagrange_poly nodes N i x) = 1"
proof (intro conjI)
  have len: "length (take N (lagrange_basis_1D e interp x)) = N"
    using assms by (simp add: lagrange_basis_1D_eq)
  show "take N (lagrange_basis_1D e interp x) = map (\<lambda>i. Some (lagrange_poly nodes N i x)) [0..<N]"
  proof (rule nth_equalityI)
    show "length (take N (lagrange_basis_1D e interp x))
            = length (map (\<lambda>i. Some (lagrange_poly nodes N i x)) [0..<N])"
      using len by simp
    fix i assume "i < length (take N (lagrange_basis_1D e interp x))"
    then have i: "i < N"
      using len by simp
    have "lagrange_basis_1D e interp x ! i = Some (lagrange_poly (HexN_Verts_1d e) N i x)"
      by (rule lagrange_basis_1D_nth) (use assms i in \<open>simp_all add: nodes_def\<close>)
    then show "take N (lagrange_basis_1D e interp x) ! i
                 = map (\<lambda>i. Some (lagrange_poly nodes N i x)) [0..<N] ! i"
      using i by (simp add: nodes_def)
  qed
  have len': "length (take N (fst (lagrange_1D interp Dinterp x nodes orderN))) = N"
    using assms by (simp add: lagrange_1D_eq del: upt_Suc)
  show "take N (fst (lagrange_1D interp Dinterp x nodes orderN))
         = map (\<lambda>i. Some (lagrange_poly nodes N i x)) [0..<N]"
  proof (rule nth_equalityI)
    show "length (take N (fst (lagrange_1D interp Dinterp x nodes orderN)))
            = length (map (\<lambda>i. Some (lagrange_poly nodes N i x)) [0..<N])"
      using len' by simp
    fix i assume "i < length (take N (fst (lagrange_1D interp Dinterp x nodes orderN)))"
    then have i: "i < N"
      using len' by simp
    have "fst (lagrange_1D interp Dinterp x nodes orderN) ! i = Some (lagrange_poly nodes N i x)"
      by (rule lagrange_1D_nth) (use assms i in simp_all)
    then show "take N (fst (lagrange_1D interp Dinterp x nodes orderN)) ! i
                 = map (\<lambda>i. Some (lagrange_poly nodes N i x)) [0..<N] ! i"
      using i by simp
  qed
  have "0 < N"
    using assms(3) by simp
  then show "(\<Sum>i < N. lagrange_poly nodes N i x) = 1"
    using assms by (intro partition_of_unity) simp_all
qed

theorem lagrange_1D_partition_of_unity_witness:
  "num_verts_1d quadratic_hex = 3 \<and> (2::nat) + 1 = 3
   \<and> 3 \<le> length (HexN_Verts_1d quadratic_hex)
   \<and> distinct (take 3 (HexN_Verts_1d quadratic_hex))
   \<and> (3::nat) \<le> length (replicate 3 (None :: real_t))
   \<and> lagrange_basis_1D quadratic_hex (replicate 3 None) 2 = [Some 1, Some (- 3), Some 3]
   \<and> (\<Sum>i < 3. lagrange_poly (HexN_Verts_1d quadratic_hex) 3 i 2) = 1"
proof -
  have h: "num_verts_1d quadratic_hex = 3" "(2::nat) + 1 = 3"
    "3 \<le> length (HexN_Verts_1d quadratic_hex)"
    "distinct (take 3 (HexN_Verts_1d quadratic_hex))"
    "(3::nat) \<le> length (replicate 3 (None :: real_t))"
    "(3::nat) \<le> length (replicate 3 (None :: real_t))"
    by (simp_all add: quadratic_hex_def numeral_3_eq_3)
  note r = lagrange_1D_partition_of_unity [OF h, of 2]
  have b: "lagrange_basis_1D quadratic_hex (replicate 3 None) 2 = [Some 1, Some (- 3), Some 3]"
    by code_simp
  show ?thesis
    by (intro conjI h b r [THEN conjunct2, THEN conjunct2])
qed

text \<open>
  C3. Cardinality: for distinct nodes and indices \<open>i, j < N\<close>, the value that
  \<^verbatim>\<open>HexN::lagrange_basis_1D\<close> returns for basis index \<open>i\<close> at the coordinate of node \<open>j\<close>
  is exactly 1 when \<open>i = j\<close> and exactly 0 otherwise. The evaluator has no branch on the
  distance of \<open>x\<close> to a node: the values come out of the product form.
\<close>

theorem lagrange_basis_1D_at_node:
  fixes e :: HexN
  defines "nodes \<equiv> HexN_Verts_1d e"
  assumes "num_verts_1d e = N" "N \<le> length nodes" "distinct (take N nodes)"
    and "N \<le> length interp" "i < N" "j < N"
  shows "lagrange_basis_1D e interp (nodes ! j) ! i = Some (if i = j then 1 else 0)"
proof -
  have "lagrange_basis_1D e interp (nodes ! j) ! i
          = Some (lagrange_poly (HexN_Verts_1d e) N i (nodes ! j))"
    by (rule lagrange_basis_1D_nth) (use assms in \<open>simp_all add: nodes_def\<close>)
  moreover have "lagrange_poly nodes N i (nodes ! j) = (if i = j then 1 else 0)"
    by (rule lagrange_poly_at_node) (use assms in simp_all)
  ultimately show ?thesis
    by (simp add: nodes_def)
qed

theorem lagrange_basis_1D_at_node_witness:
  "num_verts_1d quadratic_hex = 3
   \<and> 3 \<le> length (HexN_Verts_1d quadratic_hex)
   \<and> distinct (take 3 (HexN_Verts_1d quadratic_hex))
   \<and> (3::nat) \<le> length (replicate 3 (None :: real_t)) \<and> (0::nat) < 3 \<and> (2::nat) < 3
   \<and> HexN_Verts_1d quadratic_hex ! 2 = 1
   \<and> lagrange_basis_1D quadratic_hex (replicate 3 None) 1 ! 0 = Some 0
   \<and> lagrange_basis_1D quadratic_hex (replicate 3 None) 1 ! 2 = Some 1"
proof -
  have h: "num_verts_1d quadratic_hex = 3"
    "3 \<le> length (HexN_Verts_1d quadratic_hex)"
    "distinct (take 3 (HexN_Verts_1d quadratic_hex))"
    "(3::nat) \<le> length (replicate 3 (None :: real_t))"
    by (simp_all add: quadratic_hex_def numeral_3_eq_3)
  have i: "(0::nat) < 3" "(2::nat) < 3"
    by simp_all
  have n: "HexN_Verts_1d quadratic_hex ! 2 = 1"
    by (simp add: quadratic_hex_def)
  have b0: "lagrange_basis_1D quadratic_hex (replicate 3 None) 1 ! 0 = Some 0"
    using lagrange_basis_1D_at_node [OF h i(1) i(2)] n by simp
  have b2: "lagrange_basis_1D quadratic_hex (replicate 3 None) 1 ! 2 = Some 1"
    using lagrange_basis_1D_at_node [OF h i(2) i(2)] n by simp
  show ?thesis
    by (intro conjI h i n b0 b2)
qed

subsection \<open>The flat index of a multi-index\<close>

text \<open>
  Both \<^verbatim>\<open>node_rid\<close> and \<^verbatim>\<open>vert_rid\<close> compute \<open>i + j N + k N\<^sup>2\<close> for their own \<open>N\<close>.
  The value stays below \<open>N\<^sup>3\<close>, the size \<^verbatim>\<open>setup_HexN\<close> stores in an \<^verbatim>\<open>int\<close>, so the
  \<^verbatim>\<open>int\<close> arithmetic of the source cannot overflow on an element that was allocated.
\<close>

lemma rid_less:
  fixes N :: nat
  assumes "i < N" "j < N" "k < N"
  shows "i + j * N + k * N * N < N ^ 3"
proof -
  have "i + j * N + k * N * N \<le> (N - 1) + (N - 1) * N + (N - 1) * N * N"
    using assms by (intro add_mono mult_right_mono) auto
  also have "\<dots> < N ^ 3"
    using assms(1) by (cases N) (auto simp: power3_eq_cube algebra_simps)
  finally show ?thesis .
qed

lemma rid_decode:
  fixes N :: nat
  assumes "i < N" "j < N" "k < N"
  shows "multi_index N (i + j * N + k * N * N) = (i, j, k)"
proof -
  have eq: "i + j * N + k * N * N = i + (j + k * N) * N"
    by (simp add: algebra_simps)
  have "(i + (j + k * N) * N) mod N = i"
    using assms by simp
  moreover have "(i + (j + k * N) * N) div N = j + k * N"
    using assms by simp
  moreover have "(i + (j + k * N) * N) div (N * N) = k"
    using assms by (simp add: div_mult2_eq)
  ultimately show ?thesis
    using assms by (simp add: multi_index_def eq)
qed

lemma rid_encode:
  fixes N :: nat
  assumes "flat < N ^ 3"
  shows "case multi_index N flat of
           (i, j, k) \<Rightarrow> i < N \<and> j < N \<and> k < N \<and> i + j * N + k * N * N = flat"
proof -
  have N: "0 < N"
    using assms by (cases N) auto
  have k: "flat div (N * N) < N"
    using assms N by (simp add: power3_eq_cube less_mult_imp_div_less mult.assoc)
  have "flat = flat mod N + (flat div N) * N"
    by simp
  also have "flat div N = (flat div N) mod N + (flat div N div N) * N"
    by simp
  finally have "flat = flat mod N + ((flat div N) mod N + (flat div (N * N)) * N) * N"
    by (simp add: div_mult2_eq)
  then have "flat mod N + ((flat div N) mod N) * N + (flat div (N * N)) * N * N = flat"
    by (simp add: algebra_simps)
  then show ?thesis
    using N k by (simp add: multi_index_def)
qed

lemma rid_encode_ex:
  fixes N :: nat
  assumes "flat < N ^ 3"
  shows "\<exists>i j k. multi_index N flat = (i, j, k) \<and> i < N \<and> j < N \<and> k < N
           \<and> i + j * N + k * N * N = flat"
  using rid_encode [OF assms] by (cases "multi_index N flat") simp

lemma rid_bij:
  fixes N :: nat
  shows "bij_betw (\<lambda>(i, j, k). i + j * N + k * N * N)
           ({..<N} \<times> {..<N} \<times> {..<N}) {..<N ^ 3}"
proof (rule bij_betw_byWitness [where f' = "multi_index N"])
  show "\<forall>a\<in>{..<N} \<times> {..<N} \<times> {..<N}.
          multi_index N (case a of (i, j, k) \<Rightarrow> i + j * N + k * N * N) = a"
    by (auto simp: rid_decode)
  show "\<forall>flat\<in>{..<N ^ 3}.
          (case multi_index N flat of (i, j, k) \<Rightarrow> i + j * N + k * N * N) = flat"
  proof
    fix flat assume "flat \<in> {..<N ^ 3}"
    then obtain i j k where "multi_index N flat = (i, j, k)" "i + j * N + k * N * N = flat"
      using rid_encode_ex [of flat N] by auto
    then show "(case multi_index N flat of (i, j, k) \<Rightarrow> i + j * N + k * N * N) = flat"
      by simp
  qed
  show "(\<lambda>(i, j, k). i + j * N + k * N * N) ` ({..<N} \<times> {..<N} \<times> {..<N}) \<subseteq> {..<N ^ 3}"
    by (auto simp: rid_less)
  show "multi_index N ` {..<N ^ 3} \<subseteq> {..<N} \<times> {..<N} \<times> {..<N}"
  proof
    fix a assume "a \<in> multi_index N ` {..<N ^ 3}"
    then obtain flat where "flat < N ^ 3" "a = multi_index N flat"
      by auto
    then show "a \<in> {..<N} \<times> {..<N} \<times> {..<N}"
      using rid_encode_ex [of flat N] by auto
  qed
qed

lemma vert_rid_inj:
  assumes "i < num_verts_1d e" "j < num_verts_1d e" "k < num_verts_1d e"
    and "i' < num_verts_1d e" "j' < num_verts_1d e" "k' < num_verts_1d e"
    and "vert_rid e i j k = vert_rid e i' j' k'"
  shows "i = i' \<and> j = j' \<and> k = k'"
proof -
  have "multi_index (num_verts_1d e) (vert_rid e i j k) = (i, j, k)"
    unfolding vert_rid_def by (rule rid_decode [OF assms(1-3)])
  moreover have "multi_index (num_verts_1d e) (vert_rid e i' j' k') = (i', j', k')"
    unfolding vert_rid_def by (rule rid_decode [OF assms(4-6)])
  ultimately have "(i, j, k) = (i', j', k')"
    by (simp only: assms(7))
  then show ?thesis
    by simp
qed

text \<open>
  C5. For every per-axis size \<open>N\<close> the flat-index map \<open>(i, j, k) \<mapsto> i + j N + k N\<^sup>2\<close>
  of \<^verbatim>\<open>vert_rid\<close> (over \<^verbatim>\<open>num_verts_1d_\<close>) and of \<^verbatim>\<open>node_rid\<close> (over \<^verbatim>\<open>num_nodes_1d_\<close>)
  is a bijection from \<open>{0..N-1}\<^sup>3\<close> onto \<open>{0..N\<^sup>3-1}\<close>; decoding a flat index and encoding
  the result returns the flat index, encoding a multi-index and decoding the result
  returns the multi-index, and the axes have strides 1, \<open>N\<close> and \<open>N\<^sup>2\<close>, the first axis
  varying fastest.
\<close>

theorem rid_bijection:
  fixes e :: HexN
  defines "N \<equiv> num_verts_1d e" and "M \<equiv> num_nodes_1d e"
  shows "bij_betw (\<lambda>(i, j, k). vert_rid e i j k) ({..<N} \<times> {..<N} \<times> {..<N}) {..<N ^ 3}
    \<and> bij_betw (\<lambda>(i, j, k). node_rid e i j k) ({..<M} \<times> {..<M} \<times> {..<M}) {..<M ^ 3}
    \<and> (\<forall>flat < N ^ 3. case multi_index N flat of
           (i, j, k) \<Rightarrow> i < N \<and> j < N \<and> k < N \<and> vert_rid e i j k = flat)
    \<and> (\<forall>flat < M ^ 3. case multi_index M flat of
           (i, j, k) \<Rightarrow> i < M \<and> j < M \<and> k < M \<and> node_rid e i j k = flat)
    \<and> (\<forall>i < N. \<forall>j < N. \<forall>k < N. multi_index N (vert_rid e i j k) = (i, j, k))
    \<and> (\<forall>i < M. \<forall>j < M. \<forall>k < M. multi_index M (node_rid e i j k) = (i, j, k))
    \<and> (\<forall>i j k. vert_rid e (i + 1) j k = vert_rid e i j k + 1
          \<and> vert_rid e i (j + 1) k = vert_rid e i j k + N
          \<and> vert_rid e i j (k + 1) = vert_rid e i j k + N * N)
    \<and> (\<forall>i j k. node_rid e (i + 1) j k = node_rid e i j k + 1
          \<and> node_rid e i (j + 1) k = node_rid e i j k + M
          \<and> node_rid e i j (k + 1) = node_rid e i j k + M * M)"
proof (intro conjI)
  show "bij_betw (\<lambda>(i, j, k). vert_rid e i j k) ({..<N} \<times> {..<N} \<times> {..<N}) {..<N ^ 3}"
    using rid_bij [of N] by (simp add: vert_rid_def N_def)
  show "bij_betw (\<lambda>(i, j, k). node_rid e i j k) ({..<M} \<times> {..<M} \<times> {..<M}) {..<M ^ 3}"
    using rid_bij [of M] by (simp add: node_rid_def M_def)
  show "\<forall>flat < N ^ 3. case multi_index N flat of
           (i, j, k) \<Rightarrow> i < N \<and> j < N \<and> k < N \<and> vert_rid e i j k = flat"
    using rid_encode [of _ N] by (simp add: vert_rid_def N_def)
  show "\<forall>flat < M ^ 3. case multi_index M flat of
           (i, j, k) \<Rightarrow> i < M \<and> j < M \<and> k < M \<and> node_rid e i j k = flat"
    using rid_encode [of _ M] by (simp add: node_rid_def M_def)
  show "\<forall>i < N. \<forall>j < N. \<forall>k < N. multi_index N (vert_rid e i j k) = (i, j, k)"
    using rid_decode [of _ N] by (simp add: vert_rid_def N_def)
  show "\<forall>i < M. \<forall>j < M. \<forall>k < M. multi_index M (node_rid e i j k) = (i, j, k)"
    using rid_decode [of _ M] by (simp add: node_rid_def M_def)
  show "\<forall>i j k. vert_rid e (i + 1) j k = vert_rid e i j k + 1
          \<and> vert_rid e i (j + 1) k = vert_rid e i j k + N
          \<and> vert_rid e i j (k + 1) = vert_rid e i j k + N * N"
    by (simp add: vert_rid_def N_def algebra_simps)
  show "\<forall>i j k. node_rid e (i + 1) j k = node_rid e i j k + 1
          \<and> node_rid e i (j + 1) k = node_rid e i j k + M
          \<and> node_rid e i j (k + 1) = node_rid e i j k + M * M"
    by (simp add: node_rid_def M_def algebra_simps)
qed

theorem rid_bijection_witness:
  "(7::nat) < num_verts_1d quadratic_hex ^ 3
   \<and> multi_index (num_verts_1d quadratic_hex) 7 = (1, 2, 0)
   \<and> vert_rid quadratic_hex 1 2 0 = 7"
proof -
  have h: "(7::nat) < num_verts_1d quadratic_hex ^ 3"
    by (simp add: quadratic_hex_def)
  have m: "multi_index (num_verts_1d quadratic_hex) 7 = (1, 2, 0)"
    by (simp add: multi_index_def quadratic_hex_def)
  note enc = rid_bijection [of quadratic_hex, THEN conjunct2, THEN conjunct2, THEN conjunct1,
      rule_format, OF h]
  show ?thesis
    using h m enc by simp
qed

subsection \<open>The tensor-product basis\<close>

text \<open>
  The loop nest of \<^verbatim>\<open>HexN::basis\<close> is a single pass over the triples \<open>(k, j, i)\<close>; since
  \<^verbatim>\<open>vert_rid\<close> is injective on them, the cell of a triple holds what was written for that
  triple. The saving loops copy a one-dimensional result into one column of the
  \<open>N x 3\<close> scratch array.
\<close>

lemma fold_update_inj_nth:
  assumes "inj_on g (set as)" "a \<in> set as" "g a < length b"
  shows "fold (\<lambda>a b. b[g a := h a]) as b ! g a = h a"
  using assms
proof (induction as arbitrary: a rule: rev_induct)
  case Nil
  then show ?case by simp
next
  case (snoc x xs)
  have len: "length (fold (\<lambda>a b. b[g a := h a]) xs b) = length b" for xs
    by (induction xs rule: rev_induct) simp_all
  show ?case
  proof (cases "a = x")
    case True
    then show ?thesis using snoc.prems len by simp
  next
    case False
    then have a: "a \<in> set xs" using snoc.prems by simp
    have "g x \<noteq> g a"
      using snoc.prems(1) False a by (auto simp: inj_on_def)
    moreover have "inj_on g (set xs)"
      using snoc.prems(1) by (auto simp: inj_on_def)
    ultimately show ?thesis
      using snoc.IH [OF _ a snoc.prems(3)] by simp
  qed
qed

lemma fold_nested_product:
  "fold (\<lambda>k. fold (\<lambda>j. F k j) ys) xs = fold (\<lambda>(k, j). F k j) (List.product xs ys)"
proof (induction xs)
  case Nil
  show ?case by simp
next
  case (Cons x xs)
  have "fold (\<lambda>(k, j). F k j) (map (Pair x) ys) = fold (\<lambda>j. F x j) ys"
    by (simp add: fold_map comp_def)
  then show ?case
    using Cons by (simp add: comp_def)
qed

lemma tensor_loop_flat:
  "tensor_loop e f =
     fold (\<lambda>(k, j, i) basis. basis[vert_rid e i j k := f i j k])
       (List.product [0..<num_verts_1d e] (List.product [0..<num_verts_1d e] [0..<num_verts_1d e]))"
  unfolding tensor_loop_def
  by (simp add: fold_nested_product split_def)


lemma tensor_loop_nth:
  assumes "i < num_verts_1d e" "j < num_verts_1d e" "k < num_verts_1d e"
    and "num_verts_1d e ^ 3 \<le> length out"
  shows "tensor_loop e f out ! vert_rid e i j k = f i j k"
proof -
  define g where "g = (\<lambda>(k, j, i). vert_rid e i j k)"
  define h where "h = (\<lambda>(k :: nat, j :: nat, i :: nat). f i j k)"
  define triples where
    "triples = List.product [0..<num_verts_1d e] (List.product [0..<num_verts_1d e] [0..<num_verts_1d e])"
  have fn: "(\<lambda>(k, j, i) basis. basis[vert_rid e i j k := f i j k]) = (\<lambda>a b. b[g a := h a])"
    by (rule ext) (simp add: g_def h_def split_def)
  have loop: "tensor_loop e f = fold (\<lambda>a b. b[g a := h a]) triples"
    by (simp only: tensor_loop_flat fn triples_def)
  have inj: "inj_on g (set triples)"
  proof (rule inj_onI)
    fix a b
    assume a: "a \<in> set triples" and b: "b \<in> set triples" and eq: "g a = g b"
    obtain k j i where a': "a = (k, j, i)"
      by (cases a) auto
    obtain k' j' i' where b': "b = (k', j', i')"
      by (cases b) auto
    have ra: "i < num_verts_1d e" "j < num_verts_1d e" "k < num_verts_1d e"
      using a by (simp_all add: a' triples_def)
    have rb: "i' < num_verts_1d e" "j' < num_verts_1d e" "k' < num_verts_1d e"
      using b by (simp_all add: b' triples_def)
    have "vert_rid e i j k = vert_rid e i' j' k'"
      using eq by (simp add: a' b' g_def)
    from vert_rid_inj [OF ra rb this] show "a = b"
      by (simp add: a' b')
  qed
  have mem: "(k, j, i) \<in> set triples"
    using assms by (simp add: triples_def)
  have "vert_rid e i j k < num_verts_1d e ^ 3"
    unfolding vert_rid_def using assms(1-3) by (rule rid_less)
  then have len: "g (k, j, i) < length out"
    using assms(4) by (simp add: g_def)
  have "fold (\<lambda>a b. b[g a := h a]) triples out ! g (k, j, i) = h (k, j, i)"
    using inj mem len by (rule fold_update_inj_nth)
  then show ?thesis
    by (simp add: loop g_def h_def)
qed

lemma save_axis_eq:
  assumes "N \<le> length val_3d" "N \<le> length val_1d"
  shows "save_axis N d (val_3d, val_1d) =
           (map (\<lambda>i. (val_3d ! i)[d := val_1d ! i]) [0..<N] @ drop N val_3d,
            replicate N (Some 0) @ drop N val_1d)"
  using assms
proof (induction N)
  case 0
  show ?case by (simp add: save_axis_def)
next
  case (Suc N)
  then have N: "N < length val_3d" "N < length val_1d" by simp_all
  have IH: "save_axis N d (val_3d, val_1d) =
           (map (\<lambda>i. (val_3d ! i)[d := val_1d ! i]) [0..<N] @ drop N val_3d,
            replicate N (Some 0) @ drop N val_1d)"
    using Suc by simp
  have A: "set2 (map (\<lambda>i. (val_3d ! i)[d := val_1d ! i]) [0..<N] @ drop N val_3d) N d
              ((replicate N (Some 0) @ drop N val_1d) ! N)
            = map (\<lambda>i. (val_3d ! i)[d := val_1d ! i]) [0..<Suc N] @ drop (Suc N) val_3d"
    using N by (simp add: set2_def list_update_append nth_append Cons_nth_drop_Suc [symmetric])
  have B: "(replicate N (Some 0) @ drop N val_1d)[N := Some 0]
            = replicate (Suc N) (Some 0) @ drop (Suc N) val_1d"
    using N by (simp add: list_update_append Cons_nth_drop_Suc [symmetric] replicate_append_same)
  have "save_axis (Suc N) d (val_3d, val_1d)
          = (\<lambda>(val_3d, val_1d). (set2 val_3d N d (val_1d ! N), val_1d[N := Some 0]))
              (save_axis N d (val_3d, val_1d))"
    by (simp add: save_axis_def)
  then show ?case
    unfolding IH using A B by simp
qed

lemma store_fold_eq:
  assumes "N \<le> length V" "N \<le> length W"
  shows "fold (\<lambda>i (V, W). (set2 V i d (D ! i), W[i := Some 0])) [0..<N] (V, W) =
           (map (\<lambda>i. (V ! i)[d := D ! i]) [0..<N] @ drop N V,
            replicate N (Some 0) @ drop N W)"
  using assms
proof (induction N)
  case 0
  show ?case by simp
next
  case (Suc N)
  then have N: "N < length V" "N < length W" by simp_all
  have IH: "fold (\<lambda>i (V, W). (set2 V i d (D ! i), W[i := Some 0])) [0..<N] (V, W) =
           (map (\<lambda>i. (V ! i)[d := D ! i]) [0..<N] @ drop N V,
            replicate N (Some 0) @ drop N W)"
    using Suc by simp
  have A: "set2 (map (\<lambda>i. (V ! i)[d := D ! i]) [0..<N] @ drop N V) N d (D ! N)
            = map (\<lambda>i. (V ! i)[d := D ! i]) [0..<Suc N] @ drop (Suc N) V"
    using N by (simp add: set2_def list_update_append nth_append Cons_nth_drop_Suc [symmetric])
  have B: "(replicate N (Some 0) @ drop N W)[N := Some 0]
            = replicate (Suc N) (Some 0) @ drop (Suc N) W"
    using N by (simp add: list_update_append Cons_nth_drop_Suc [symmetric] replicate_append_same)
  show ?case
    unfolding fold_upt_Suc IH using A B by simp
qed

lemma save_axis_nth:
  assumes "length V = N" "length L = N" "i < N"
  shows "fst (save_axis N d (V, L)) ! i = (V ! i)[d := L ! i]"
    and "length (fst (save_axis N d (V, L))) = N"
    and "snd (save_axis N d (V, L)) = replicate N (Some 0)"
  using assms by (simp_all add: save_axis_eq)

lemma length_lagrange_basis_1D:
  "num_verts_1d e \<le> length a \<Longrightarrow> length (lagrange_basis_1D e a x) = length a"
  by (simp add: lagrange_basis_1D_eq)

lemma length_lagrange_derivative_1D:
  "num_verts_1d e \<le> length a \<Longrightarrow> length (lagrange_derivative_1D e a x) = length a"
  by (simp add: lagrange_derivative_1D_eq)

lemma lagrange_basis_1D_scratch:
  assumes "length a = num_verts_1d e"
  shows "lagrange_basis_1D e a x = lagrange_basis_1D e (replicate (num_verts_1d e) None) x"
  using assms by (simp add: lagrange_basis_1D_eq)

lemma basis_nth:
  assumes "i < num_verts_1d e" "j < num_verts_1d e" "k < num_verts_1d e"
    and "num_verts_1d e ^ 3 \<le> length out"
  shows "basis e out [x, y, z] ! vert_rid e i j k
           = fmul (fmul (lagrange_basis_1D e (replicate (num_verts_1d e) None) x ! i)
                        (lagrange_basis_1D e (replicate (num_verts_1d e) None) y ! j))
                  (lagrange_basis_1D e (replicate (num_verts_1d e) None) z ! k)"
  unfolding basis_def Let_def split_def
  using assms
  by (simp add: tensor_loop_nth save_axis_nth length_lagrange_basis_1D CArray2_def
      lagrange_basis_1D_scratch [of "replicate (num_verts_1d e) (Some 0)"])


lemma partial_xi_basis_nth:
  assumes "i < num_verts_1d e" "j < num_verts_1d e" "k < num_verts_1d e"
    and "num_verts_1d e ^ 3 \<le> length out"
  shows "partial_xi_basis e out [x, y, z] ! vert_rid e i j k
           = fmul (fmul (lagrange_derivative_1D e (replicate (num_verts_1d e) None) x ! i)
                        (lagrange_basis_1D e (replicate (num_verts_1d e) None) y ! j))
                  (lagrange_basis_1D e (replicate (num_verts_1d e) None) z ! k)"
  unfolding partial_xi_basis_def Let_def split_def
  using assms
  by (simp add: tensor_loop_nth save_axis_nth length_lagrange_basis_1D
      length_lagrange_derivative_1D CArray2_def
      lagrange_basis_1D_scratch [of "replicate (num_verts_1d e) (Some 0)"])

lemma partial_eta_basis_nth:
  assumes "i < num_verts_1d e" "j < num_verts_1d e" "k < num_verts_1d e"
    and "num_verts_1d e ^ 3 \<le> length out"
  shows "partial_eta_basis e out [x, y, z] ! vert_rid e i j k
           = fmul (fmul (lagrange_basis_1D e (replicate (num_verts_1d e) None) x ! i)
                        (lagrange_derivative_1D e (replicate (num_verts_1d e) None) y ! j))
                  (lagrange_basis_1D e (replicate (num_verts_1d e) None) z ! k)"
  unfolding partial_eta_basis_def Let_def split_def
  using assms
  by (simp add: tensor_loop_nth save_axis_nth length_lagrange_basis_1D
      length_lagrange_derivative_1D CArray2_def
      lagrange_basis_1D_scratch [of "replicate (num_verts_1d e) (Some 0)"])

lemma partial_mu_basis_nth:
  assumes "i < num_verts_1d e" "j < num_verts_1d e" "k < num_verts_1d e"
    and "num_verts_1d e ^ 3 \<le> length out"
  shows "partial_mu_basis e out [x, y, z] ! vert_rid e i j k
           = fmul (fmul (lagrange_basis_1D e (replicate (num_verts_1d e) None) x ! i)
                        (lagrange_basis_1D e (replicate (num_verts_1d e) None) y ! j))
                  (lagrange_derivative_1D e (replicate (num_verts_1d e) None) z ! k)"
  unfolding partial_mu_basis_def Let_def split_def
  using assms
  by (simp add: tensor_loop_nth save_axis_nth store_fold_eq [unfolded split_def]
      length_lagrange_basis_1D
      length_lagrange_derivative_1D CArray2_def
      lagrange_basis_1D_scratch [of "replicate (num_verts_1d e) (Some 0)"])

text \<open>
  C4. For every element with \<open>N\<close> vertices per axis, every evaluation point \<open>(x, y, z)\<close>
  and every multi-index \<open>(i, j, k)\<close>, the cell \<^verbatim>\<open>vert_rid(i, j, k)\<close> of the array written by
  \<^verbatim>\<open>HexN::basis\<close> holds the product of the three per-axis values returned by
  \<^verbatim>\<open>lagrange_basis_1D\<close> at \<open>x\<close>, \<open>y\<close> and \<open>z\<close>, and the same cell of the array written by
  \<^verbatim>\<open>partial_xi_basis\<close>, \<^verbatim>\<open>partial_eta_basis\<close>, \<^verbatim>\<open>partial_mu_basis\<close> holds that product
  with the factor of axis 1, 2, 3 replaced by the value returned by
  \<^verbatim>\<open>lagrange_derivative_1D\<close>. With distinct nodes these are the finite numbers
  \<open>\<ell>\<^sub>i(x) \<ell>\<^sub>j(y) \<ell>\<^sub>k(z)\<close>, \<open>\<ell>\<^sub>i'(x) \<ell>\<^sub>j(y) \<ell>\<^sub>k(z)\<close>, \<open>\<ell>\<^sub>i(x) \<ell>\<^sub>j'(y) \<ell>\<^sub>k(z)\<close> and
  \<open>\<ell>\<^sub>i(x) \<ell>\<^sub>j(y) \<ell>\<^sub>k'(z)\<close>.
\<close>

theorem tensor_product_structure:
  fixes e :: HexN
  defines "nodes \<equiv> HexN_Verts_1d e" and "N \<equiv> num_verts_1d e"
  defines "L \<equiv> \<lambda>x. lagrange_basis_1D e (replicate N None) x"
    and "D \<equiv> \<lambda>x. lagrange_derivative_1D e (replicate N None) x"
  assumes "i < N" "j < N" "k < N" "N ^ 3 \<le> length out"
  shows "basis e out [x, y, z] ! vert_rid e i j k = fmul (fmul (L x ! i) (L y ! j)) (L z ! k)
    \<and> partial_xi_basis e out [x, y, z] ! vert_rid e i j k
         = fmul (fmul (D x ! i) (L y ! j)) (L z ! k)
    \<and> partial_eta_basis e out [x, y, z] ! vert_rid e i j k
         = fmul (fmul (L x ! i) (D y ! j)) (L z ! k)
    \<and> partial_mu_basis e out [x, y, z] ! vert_rid e i j k
         = fmul (fmul (L x ! i) (L y ! j)) (D z ! k)
    \<and> (N \<le> length nodes \<and> distinct (take N nodes) \<longrightarrow>
         basis e out [x, y, z] ! vert_rid e i j k
           = Some (lagrange_poly nodes N i x * lagrange_poly nodes N j y * lagrange_poly nodes N k z)
       \<and> partial_xi_basis e out [x, y, z] ! vert_rid e i j k
           = Some (lagrange_poly_deriv nodes N i x * lagrange_poly nodes N j y
                    * lagrange_poly nodes N k z)
       \<and> partial_eta_basis e out [x, y, z] ! vert_rid e i j k
           = Some (lagrange_poly nodes N i x * lagrange_poly_deriv nodes N j y
                    * lagrange_poly nodes N k z)
       \<and> partial_mu_basis e out [x, y, z] ! vert_rid e i j k
           = Some (lagrange_poly nodes N i x * lagrange_poly nodes N j y
                    * lagrange_poly_deriv nodes N k z))"
proof -
  have b: "basis e out [x, y, z] ! vert_rid e i j k = fmul (fmul (L x ! i) (L y ! j)) (L z ! k)"
    unfolding L_def N_def by (rule basis_nth) (use assms in \<open>simp_all add: N_def\<close>)
  have xi: "partial_xi_basis e out [x, y, z] ! vert_rid e i j k
         = fmul (fmul (D x ! i) (L y ! j)) (L z ! k)"
    unfolding L_def D_def N_def
    by (rule partial_xi_basis_nth) (use assms in \<open>simp_all add: N_def\<close>)
  have eta: "partial_eta_basis e out [x, y, z] ! vert_rid e i j k
         = fmul (fmul (L x ! i) (D y ! j)) (L z ! k)"
    unfolding L_def D_def N_def
    by (rule partial_eta_basis_nth) (use assms in \<open>simp_all add: N_def\<close>)
  have mu: "partial_mu_basis e out [x, y, z] ! vert_rid e i j k
         = fmul (fmul (L x ! i) (L y ! j)) (D z ! k)"
    unfolding L_def D_def N_def
    by (rule partial_mu_basis_nth) (use assms in \<open>simp_all add: N_def\<close>)
  have poly: "L u ! m = Some (lagrange_poly nodes N m u)"
    "D u ! m = Some (lagrange_poly_deriv nodes N m u)"
    if "N \<le> length nodes" "distinct (take N nodes)" "m < N" for u m
  proof -
    show "L u ! m = Some (lagrange_poly nodes N m u)"
      unfolding L_def nodes_def
      by (rule lagrange_basis_1D_nth) (use that in \<open>simp_all add: N_def nodes_def\<close>)
    show "D u ! m = Some (lagrange_poly_deriv nodes N m u)"
      unfolding D_def nodes_def
      by (rule lagrange_derivative_1D_nth) (use that in \<open>simp_all add: N_def nodes_def\<close>)
  qed
  show ?thesis
    using b xi eta mu poly assms(5-7) by (simp add: fmul_def)
qed

theorem tensor_product_structure_witness:
  "(1::nat) < num_verts_1d quadratic_hex \<and> (2::nat) < num_verts_1d quadratic_hex
   \<and> (0::nat) < num_verts_1d quadratic_hex
   \<and> num_verts_1d quadratic_hex ^ 3 \<le> length (replicate 27 (None :: real_t))
   \<and> num_verts_1d quadratic_hex \<le> length (HexN_Verts_1d quadratic_hex)
   \<and> distinct (take (num_verts_1d quadratic_hex) (HexN_Verts_1d quadratic_hex))
   \<and> vert_rid quadratic_hex 1 2 0 = 7
   \<and> basis quadratic_hex (replicate 27 None) [0, 1 / 2, - 1] ! 7 = Some (3 / 8)
   \<and> partial_eta_basis quadratic_hex (replicate 27 None) [0, 1 / 2, - 1] ! 7 = Some 1"
proof -
  have h: "(1::nat) < num_verts_1d quadratic_hex" "(2::nat) < num_verts_1d quadratic_hex"
    "(0::nat) < num_verts_1d quadratic_hex"
    "num_verts_1d quadratic_hex ^ 3 \<le> length (replicate 27 (None :: real_t))"
    by (simp_all add: quadratic_hex_def)
  have d: "num_verts_1d quadratic_hex \<le> length (HexN_Verts_1d quadratic_hex)
    \<and> distinct (take (num_verts_1d quadratic_hex) (HexN_Verts_1d quadratic_hex))"
    by (simp add: quadratic_hex_def numeral_3_eq_3)
  have rid: "vert_rid quadratic_hex 1 2 0 = 7"
    by (simp add: vert_rid_def quadratic_hex_def)
  note r = tensor_product_structure [OF h, of 0 "1 / 2" "- 1",
      THEN conjunct2, THEN conjunct2, THEN conjunct2, THEN conjunct2, rule_format, OF d]
  have v: "lagrange_poly (HexN_Verts_1d quadratic_hex) (num_verts_1d quadratic_hex) 1 0 = 1"
    "lagrange_poly (HexN_Verts_1d quadratic_hex) (num_verts_1d quadratic_hex) 2 (1 / 2) = 3 / 8"
    "lagrange_poly_deriv (HexN_Verts_1d quadratic_hex) (num_verts_1d quadratic_hex) 2 (1 / 2) = 1"
    "lagrange_poly (HexN_Verts_1d quadratic_hex) (num_verts_1d quadratic_hex) 0 (- 1) = 1"
    by code_simp+
  have b: "basis quadratic_hex (replicate 27 None) [0, 1 / 2, - 1] ! 7 = Some (3 / 8)"
    using r [THEN conjunct1] unfolding rid v by simp
  have eta: "partial_eta_basis quadratic_hex (replicate 27 None) [0, 1 / 2, - 1] ! 7 = Some 1"
    using r [THEN conjunct2, THEN conjunct2, THEN conjunct1] unfolding rid v by simp
  show ?thesis
    using h d rid b eta by (intro conjI) simp_all
qed

subsection \<open>Construction and repeated nodes\<close>

text \<open>
  What \<^verbatim>\<open>setup_HexN\<close> stores: \<open>elem_order + 1\<close> vertices per axis (2 for order 0), whose
  coordinates are every other node the generator returned (every node for order 0),
  copied without inspection.
\<close>

lemma fold_counter_update:
  assumes "c + length is \<le> length V"
  shows "fold (\<lambda>i (V, c). (V[c := f i], c + 1)) is (V, c)
           = (take c V @ map f is @ drop (c + length is) V, c + length is)"
  using assms
proof (induction "is" arbitrary: V c)
  case Nil
  then show ?case by simp
next
  case (Cons i "is")
  then have c: "c < length V" by simp
  have "fold (\<lambda>i (V, c). (V[c := f i], c + 1)) (i # is) (V, c)
          = fold (\<lambda>i (V, c). (V[c := f i], c + 1)) is (V[c := f i], c + 1)"
    by simp
  also have "\<dots> = (take (c + 1) (V[c := f i]) @ map f is @ drop (c + 1 + length is) (V[c := f i]),
                    c + 1 + length is)"
    using Cons.prems by (intro Cons.IH) simp
  also have "take (c + 1) (V[c := f i]) = take c V @ [f i]"
    using c by (simp add: take_Suc_conv_app_nth)
  finally show ?case by simp
qed

lemma every_other_odd: "every_other (2 * n + 1) = map (\<lambda>m. 2 * m) [0..<n + 1]"
proof (induction n)
  case 0
  show ?case by (simp add: every_other_def)
next
  case (Suc n)
  have "[0..<2 * Suc n + 1] = [0..<2 * n + 1] @ [2 * n + 1, 2 * n + 2]"
    by simp
  then have "every_other (2 * Suc n + 1) = every_other (2 * n + 1) @ [2 * n + 2]"
    unfolding every_other_def by simp
  then show ?case
    using Suc by simp
qed

lemma create_lobatto_nodes_sizes:
  "num_verts_1d (create_lobatto_nodes lob e n) = num_verts_1d e"
  "num_nodes_1d (create_lobatto_nodes lob e n) = num_nodes_1d e"
  unfolding create_lobatto_nodes_def Let_def by simp_all

lemma create_lobatto_nodes_Verts_1d:
  fixes lob e n
  defines "M \<equiv> (if n = 0 then 2 else 2 * n + 1)"
  defines "steps \<equiv> (if n = 0 then [0..<M] else every_other M)"
  assumes "length steps \<le> length (HexN_Verts_1d e)"
  shows "HexN_Verts_1d (create_lobatto_nodes lob e n)
           = map (\<lambda>i. lob (HexN_Nodes_1d e) M ! i) steps
             @ drop (length steps) (HexN_Verts_1d e)"
  using assms(3) fold_counter_update [of 0 steps "HexN_Verts_1d e" "\<lambda>i. lob (HexN_Nodes_1d e) M ! i"]
  unfolding create_lobatto_nodes_def Let_def M_def steps_def
  by (simp del: upt_Suc)

lemma setup_HexN_num_verts_1d:
  "num_verts_1d (setup_HexN lob n) = (if n = 0 then 2 else n + 1)"
  unfolding setup_HexN_def Let_def
  by (simp add: create_lobatto_nodes_sizes)

lemma setup_HexN_Verts_1d:
  assumes "v < num_verts_1d (setup_HexN lob n)"
  shows "HexN_Verts_1d (setup_HexN lob n) ! v =
           (if n = 0 then lob (CArray (2 ^ 3)) 2 ! v
            else lob (CArray ((2 * n + 1) ^ 3)) (2 * n + 1) ! (2 * v))"
proof (cases "n = 0")
  case True
  define e0 :: HexN where
    "e0 = \<lparr>num_nodes_1d = 2, num_nodes = 2 ^ 3, num_verts_1d = 2, num_verts = 2 ^ 3,
            num_basis = 2 ^ 3, order = 0 + 1,
            HexN_Nodes_1d = CArray (2 ^ 3), HexN_Nodes = CArray2 (2 ^ 3) 3 0,
            HexN_Verts_1d = CArray (2 ^ 3), HexN_Verts = CArray2 (2 ^ 3) 3 0,
            Vert_Node_map = replicate (2 ^ 3) 0\<rparr>"
  have pre: "length (if (0::nat) = 0 then [0..<(if (0::nat) = 0 then 2 else 2 * 0 + 1)]
                     else every_other (if (0::nat) = 0 then 2 else 2 * 0 + 1))
               \<le> length (HexN_Verts_1d e0)"
    by (simp add: e0_def CArray_def)
  have "HexN_Verts_1d (create_lobatto_nodes lob e0 0)
          = map (\<lambda>i. lob (CArray (2 ^ 3)) 2 ! i) [0..<2] @ drop 2 (CArray (2 ^ 3))"
    using create_lobatto_nodes_Verts_1d [OF pre, of lob]
    by (simp add: e0_def del: upt_Suc)
  then have "HexN_Verts_1d (setup_HexN lob 0)
          = map (\<lambda>i. lob (CArray (2 ^ 3)) 2 ! i) [0..<2] @ drop 2 (CArray (2 ^ 3))"
    unfolding setup_HexN_def Let_def e0_def by simp
  then show ?thesis
    using assms True by (simp add: setup_HexN_num_verts_1d nth_append del: upt_Suc)
next
  case False
  define e0 :: HexN where
    "e0 = \<lparr>num_nodes_1d = 2 * n + 1, num_nodes = (2 * n + 1) ^ 3,
            num_verts_1d = n + 1, num_verts = (n + 1) ^ 3,
            num_basis = (n + 1) ^ 3, order = n,
            HexN_Nodes_1d = CArray ((2 * n + 1) ^ 3),
            HexN_Nodes = CArray2 ((2 * n + 1) ^ 3) 3 0,
            HexN_Verts_1d = CArray ((n + 1) ^ 3),
            HexN_Verts = CArray2 ((n + 1) ^ 3) 3 0,
            Vert_Node_map = replicate ((n + 1) ^ 3) 0\<rparr>"
  have len: "n + 1 \<le> (n + 1) ^ 3"
    by (simp add: power3_eq_cube)
  have steps: "length (every_other (2 * n + 1)) = n + 1"
    unfolding every_other_odd by simp
  have nth_steps: "every_other (2 * n + 1) ! v = 2 * v" if "v < n + 1" for v
    unfolding every_other_odd using that by (simp del: upt_Suc)
  have pre: "length (if n = 0 then [0..<(if n = 0 then 2 else 2 * n + 1)]
                     else every_other (if n = 0 then 2 else 2 * n + 1))
               \<le> length (HexN_Verts_1d e0)"
    using False len steps by (simp add: e0_def CArray_def)
  have "HexN_Verts_1d (create_lobatto_nodes lob e0 n)
          = map (\<lambda>i. lob (CArray ((2 * n + 1) ^ 3)) (2 * n + 1) ! i) (every_other (2 * n + 1))
            @ drop (n + 1) (CArray ((n + 1) ^ 3))"
    using create_lobatto_nodes_Verts_1d [OF pre, of lob] False
    by (simp only: steps e0_def if_False HexN.simps)
  then have "HexN_Verts_1d (setup_HexN lob n)
          = map (\<lambda>i. lob (CArray ((2 * n + 1) ^ 3)) (2 * n + 1) ! i) (every_other (2 * n + 1))
            @ drop (n + 1) (CArray ((n + 1) ^ 3))"
    unfolding setup_HexN_def Let_def e0_def using False by simp
  moreover have "v < n + 1"
    using assms False by (simp add: setup_HexN_num_verts_1d)
  ultimately show ?thesis
    using False steps nth_steps [of v] by (simp add: nth_append)
qed

lemma degenerate_denominator:
  fixes v :: "real list"
  assumes "i < N" "j < N" "i \<noteq> j" "v ! i = v ! j"
  shows "(\<Prod>m \<in> {..<N} - {i}. (v ! i - v ! m)) = 0"
proof (rule prod_zero)
  show "finite ({..<N} - {i})"
    by simp
  show "\<exists>m \<in> {..<N} - {i}. v ! i - v ! m = 0"
    using assms by (intro bexI [of _ j]) simp_all
qed

lemma degenerate_None:
  assumes "i < N" "j < N" "i \<noteq> j" "v ! i = v ! j"
  shows "fdiv a (\<Prod>m \<in> {..<N} - {i}. (v ! i - v ! m)) = None"
  using degenerate_denominator [OF assms] by (simp add: fdiv_def)

lemma lagrange_basis_1D_degenerate:
  assumes "num_verts_1d e = N" "N \<le> length interp"
    and "i < N" "j < N" "i \<noteq> j" "HexN_Verts_1d e ! i = HexN_Verts_1d e ! j"
  shows "lagrange_basis_1D e interp x ! i = None"
  using assms(1-3) degenerate_None [OF assms(3-6)]
  by (simp add: lagrange_basis_1D_eq nth_append)

lemma lagrange_derivative_1D_degenerate:
  assumes "num_verts_1d e = N" "N \<le> length derivative"
    and "i < N" "j < N" "i \<noteq> j" "HexN_Verts_1d e ! i = HexN_Verts_1d e ! j"
  shows "lagrange_derivative_1D e derivative x ! i = None"
  using assms(1-3) degenerate_None [OF assms(3-6)]
  by (simp add: lagrange_derivative_1D_eq nth_append)

lemma lagrange_1D_degenerate:
  assumes "orderN + 1 = N" "N \<le> length interp" "N \<le> length Dinterp"
    and "i < N" "j < N" "i \<noteq> j" "nodes ! i = nodes ! j"
  shows "fst (lagrange_1D interp Dinterp x nodes orderN) ! i = None"
    and "snd (lagrange_1D interp Dinterp x nodes orderN) ! i = None"
proof -
  have len: "orderN + 1 \<le> length interp" "orderN + 1 \<le> length Dinterp" "i < orderN + 1"
    using assms by simp_all
  have z: "fdiv a (\<Prod>m \<in> {..<orderN + 1} - {i}. (nodes ! i - nodes ! m)) = None" for a
    using degenerate_None [OF assms(4-7)] assms(1) by simp
  show "fst (lagrange_1D interp Dinterp x nodes orderN) ! i = None"
    unfolding lagrange_1D_eq [OF len(1,2)] using len(3) z by (simp add: nth_append del: upt_Suc)
  show "snd (lagrange_1D interp Dinterp x nodes orderN) ! i = None"
    unfolding lagrange_1D_eq [OF len(1,2)] using len(3) z by (simp add: nth_append del: upt_Suc)
qed

lemma repeated_setup:
  "num_verts_1d (setup_HexN repeated_nodes_1D 3) = 4"
  "HexN_Verts_1d (setup_HexN repeated_nodes_1D 3) ! 0 = - 1"
  "HexN_Verts_1d (setup_HexN repeated_nodes_1D 3) ! 1 = 0"
  "HexN_Verts_1d (setup_HexN repeated_nodes_1D 3) ! 2 = 0"
  "HexN_Verts_1d (setup_HexN repeated_nodes_1D 3) ! 3 = 1"
proof -
  show n: "num_verts_1d (setup_HexN repeated_nodes_1D 3) = 4"
    by (simp add: setup_HexN_num_verts_1d)
  have v: "HexN_Verts_1d (setup_HexN repeated_nodes_1D 3) ! v
             = ([- 1, - 1 / 2, 0, 0, 0, 1 / 2, 1] @ drop 7 (CArray ((2 * 3 + 1) ^ 3))) ! (2 * v)"
    if "v < 4" for v
    using setup_HexN_Verts_1d [of v repeated_nodes_1D 3] that n
    by (simp add: repeated_nodes_1D_def)
  show "HexN_Verts_1d (setup_HexN repeated_nodes_1D 3) ! 0 = - 1"
    using v [of 0] by simp
  show "HexN_Verts_1d (setup_HexN repeated_nodes_1D 3) ! 1 = 0"
    using v [of 1] by simp
  show "HexN_Verts_1d (setup_HexN repeated_nodes_1D 3) ! 2 = 0"
    using v [of 2] by simp
  show "HexN_Verts_1d (setup_HexN repeated_nodes_1D 3) ! 3 = 1"
    using v [of 3] by simp
qed

text \<open>
  C7, as the code has it. Neither \<^verbatim>\<open>HexN::setup_HexN\<close> nor the evaluators compare node
  coordinates, and no DegenerateNodeSet condition exists in the sources: construction
  returns an element for whatever nodes it is given. When two of the \<open>N\<close> node
  coordinates are equal, the denominator of both basis functions concerned is zero, and
  for every evaluation coordinate \<open>x\<close> \<^verbatim>\<open>HexN::lagrange_basis_1D\<close>,
  \<^verbatim>\<open>HexN::lagrange_derivative_1D\<close> and \<^verbatim>\<open>QuadN::lagrange_1D\<close> divide by it and return a
  value that is not a finite number for those basis indices, without signalling anything.
\<close>

theorem degenerate_nodes_divide_by_zero:
  fixes e :: HexN
  defines "nodes \<equiv> HexN_Verts_1d e"
  assumes "num_verts_1d e = N" "orderN + 1 = N"
    and "N \<le> length interp" "N \<le> length derivative"
    and "i < N" "j < N" "i \<noteq> j" "nodes ! i = nodes ! j"
  shows "lagrange_basis_1D e interp x ! i = None
    \<and> lagrange_derivative_1D e derivative x ! i = None
    \<and> fst (lagrange_1D interp derivative x nodes orderN) ! i = None
    \<and> snd (lagrange_1D interp derivative x nodes orderN) ! i = None"
proof (intro conjI)
  have eq: "HexN_Verts_1d e ! i = HexN_Verts_1d e ! j"
    using assms(9) by (simp add: nodes_def)
  show "lagrange_basis_1D e interp x ! i = None"
    using assms(2,4,6,7,8) eq by (rule lagrange_basis_1D_degenerate)
  show "lagrange_derivative_1D e derivative x ! i = None"
    using assms(2,5,6,7,8) eq by (rule lagrange_derivative_1D_degenerate)
  show "fst (lagrange_1D interp derivative x nodes orderN) ! i = None"
    using assms(3-9) by (rule lagrange_1D_degenerate)
  show "snd (lagrange_1D interp derivative x nodes orderN) ! i = None"
    using assms(3-9) by (rule lagrange_1D_degenerate)
qed

theorem degenerate_nodes_divide_by_zero_witness:
  "num_verts_1d (setup_HexN repeated_nodes_1D 3) = 4 \<and> (3::nat) + 1 = 4
   \<and> (4::nat) \<le> length (replicate 4 (None :: real_t))
   \<and> (1::nat) < 4 \<and> (2::nat) < 4 \<and> (1::nat) \<noteq> 2
   \<and> HexN_Verts_1d (setup_HexN repeated_nodes_1D 3) ! 1
       = HexN_Verts_1d (setup_HexN repeated_nodes_1D 3) ! 2
   \<and> lagrange_basis_1D (setup_HexN repeated_nodes_1D 3) (replicate 4 None) (1 / 2) ! 1 = None
   \<and> lagrange_derivative_1D (setup_HexN repeated_nodes_1D 3) (replicate 4 None) (1 / 2) ! 1 = None"
proof -
  have h: "num_verts_1d (setup_HexN repeated_nodes_1D 3) = 4" "(3::nat) + 1 = 4"
    "(4::nat) \<le> length (replicate 4 (None :: real_t))"
    "(4::nat) \<le> length (replicate 4 (None :: real_t))"
    "(1::nat) < 4" "(2::nat) < 4" "(1::nat) \<noteq> 2"
    by (simp_all add: repeated_setup(1))
  have eq: "HexN_Verts_1d (setup_HexN repeated_nodes_1D 3) ! 1
       = HexN_Verts_1d (setup_HexN repeated_nodes_1D 3) ! 2"
    unfolding repeated_setup ..
  note r = degenerate_nodes_divide_by_zero [OF h eq, of "1 / 2"]
  show ?thesis
    by (intro conjI h eq r [THEN conjunct1] r [THEN conjunct2, THEN conjunct1])
qed

text \<open>
  The node set \<open>{-1, 0, 0, 1}\<close>: \<^verbatim>\<open>setup_HexN\<close> builds the element, and the evaluation at
  \<open>x = 1/2\<close> yields non-finite values for basis indices 1 and 2; so does
  \<^verbatim>\<open>QuadN::lagrange_1D\<close> when handed these nodes.
\<close>

theorem degenerate_nodes_counterexample:
  "num_verts_1d (setup_HexN repeated_nodes_1D 3) = 4
   \<and> map (\<lambda>v. HexN_Verts_1d (setup_HexN repeated_nodes_1D 3) ! v) [0, 1, 2, 3] = [- 1, 0, 0, 1]
   \<and> lagrange_basis_1D (setup_HexN repeated_nodes_1D 3) (replicate 4 None) (1 / 2) ! 1 = None
   \<and> lagrange_basis_1D (setup_HexN repeated_nodes_1D 3) (replicate 4 None) (1 / 2) ! 2 = None
   \<and> lagrange_1D (replicate 4 None) (replicate 4 None) (1 / 2) [- 1, 0, 0, 1] 3
        = ([Some (1 / 16), None, None, Some (3 / 16)], [Some (1 / 8), None, None, Some (7 / 8)])"
proof (intro conjI)
  show "num_verts_1d (setup_HexN repeated_nodes_1D 3) = 4"
    by (rule repeated_setup)
  show "map (\<lambda>v. HexN_Verts_1d (setup_HexN repeated_nodes_1D 3) ! v) [0, 1, 2, 3] = [- 1, 0, 0, 1]"
    unfolding list.map repeated_setup ..
  have eq: "HexN_Verts_1d (setup_HexN repeated_nodes_1D 3) ! 1
       = HexN_Verts_1d (setup_HexN repeated_nodes_1D 3) ! 2"
    unfolding repeated_setup ..
  have len: "(4::nat) \<le> length (replicate 4 (None :: real_t))"
    by simp
  have i: "(1::nat) < 4" "(2::nat) < 4" "(1::nat) \<noteq> 2" "(2::nat) \<noteq> 1"
    by simp_all
  show "lagrange_basis_1D (setup_HexN repeated_nodes_1D 3) (replicate 4 None) (1 / 2) ! 1 = None"
    using repeated_setup(1) len i(1) i(2) i(3) eq by (rule lagrange_basis_1D_degenerate)
  show "lagrange_basis_1D (setup_HexN repeated_nodes_1D 3) (replicate 4 None) (1 / 2) ! 2 = None"
    using repeated_setup(1) len i(2) i(1) i(4) eq [symmetric] by (rule lagrange_basis_1D_degenerate)
  show "lagrange_1D (replicate 4 None) (replicate 4 None) (1 / 2) [- 1, 0, 0, 1] 3
        = ([Some (1 / 16), None, None, Some (3 / 16)], [Some (1 / 8), None, None, Some (7 / 8)])"
    by code_simp
qed

subsection \<open>Interpolation\<close>

text \<open>
  The basis function of a flat index is the product of the per-axis polynomials of its
  multi-index; on the vertex grid of a HexN it is the value \<^verbatim>\<open>HexN::basis\<close> writes to the
  cell of that index.
\<close>

lemma fold_add_sum_list:
  fixes f :: "nat \<Rightarrow> real"
  shows "fold (\<lambda>i s. s + f i) xs a = a + (\<Sum>i \<leftarrow> xs. f i)"
  by (induction xs arbitrary: a) (simp_all add: add.assoc)

lemma eval_basis_flat:
  assumes "i < N" "j < N" "k < N"
  shows "eval_basis Z N (i + j * N + k * N * N) [x, y, z]
           = lagrange_poly Z N i x * lagrange_poly Z N j y * lagrange_poly Z N k z"
  by (simp add: eval_basis_def rid_decode [OF assms])

lemma eval_basis_HexN_basis:
  assumes "num_verts_1d e = N" "N \<le> length (HexN_Verts_1d e)"
    and "distinct (take N (HexN_Verts_1d e))" "N ^ 3 \<le> length out"
    and "i < N" "j < N" "k < N"
  shows "basis e out [x, y, z] ! vert_rid e i j k
           = Some (eval_basis (HexN_Verts_1d e) N (vert_rid e i j k) [x, y, z])"
proof -
  have L: "lagrange_basis_1D e (replicate N None) u ! m
             = Some (lagrange_poly (HexN_Verts_1d e) N m u)" if "m < N" for u m
    by (rule lagrange_basis_1D_nth) (use assms that in simp_all)
  have "basis e out [x, y, z] ! vert_rid e i j k
          = Some (lagrange_poly (HexN_Verts_1d e) N i x * lagrange_poly (HexN_Verts_1d e) N j y
                   * lagrange_poly (HexN_Verts_1d e) N k z)"
    using assms by (simp add: basis_nth L fmul_def)
  moreover have "vert_rid e i j k = i + j * N + k * N * N"
    using assms(1) by (simp add: vert_rid_def)
  ultimately show ?thesis
    using eval_basis_flat [OF assms(5-7)] by simp
qed

text \<open>
  C6. For every coefficient vector \<open>c\<close> and every evaluation point \<open>X\<close>, also a point whose
  coordinates are node coordinates \<open>Z[I], Z[J], Z[K]\<close>, the value of \<^verbatim>\<open>eval_approx(c, X)\<close>
  equals the sum that \<^verbatim>\<open>test1\<close> accumulates by evaluating each basis function on its own
  and adding \<open>c\<^sub>i \<cdot> basis\<^sub>i(X)\<close>, exactly over exact arithmetic.
\<close>

theorem eval_approx_consistent:
  "test1_sum1 Z N c X = eval_approx Z N c X
   \<and> test1_sum1 Z N c [Z ! I, Z ! J, Z ! K] = eval_approx Z N c [Z ! I, Z ! J, Z ! K]"
  by (simp add: test1_sum1_def eval_approx_def fold_add_sum_list)

subsection \<open>The inverse of the Jacobian\<close>

text \<open>
  The cofactor formula inverts a 3 x 3 matrix of non-zero determinant on both sides.
\<close>

lemma jacobian_shape:
  "jacobian g p v = [[jacobian g p v ! 0 ! 0, jacobian g p v ! 0 ! 1, jacobian g p v ! 0 ! 2],
                     [jacobian g p v ! 1 ! 0, jacobian g p v ! 1 ! 1, jacobian g p v ! 1 ! 2],
                     [jacobian g p v ! 2 ! 0, jacobian g p v ! 2 ! 1, jacobian g p v ! 2 ! 2]]"
  by (simp add: jacobian_def numeral_3_eq_3)

lemma upt3: "[0..<3] = [0, 1, 2]"
  by (simp add: numeral_3_eq_3)

lemma entry_one:
  fixes D :: real
  assumes "D \<noteq> 0" "p * u + q * v + r * w = D"
  shows "p * (u / D) + (q * (v / D) + (r * (w / D) + 0)) = 1"
proof -
  have "p * (u / D) + (q * (v / D) + (r * (w / D) + 0)) = (p * u + q * v + r * w) / D"
    by (simp add: add_divide_distrib)
  then show ?thesis
    using assms by simp
qed

lemma entry_zero:
  fixes D :: real
  assumes "p * u + q * v + r * w = 0"
  shows "p * (u / D) + (q * (v / D) + (r * (w / D) + 0)) = 0"
proof -
  have "p * (u / D) + (q * (v / D) + (r * (w / D) + 0)) = (p * u + q * v + r * w) / D"
    by (simp add: add_divide_distrib)
  then show ?thesis
    using assms by simp
qed

lemma entry_one':
  fixes D :: real
  assumes "D \<noteq> 0" "u * p + v * q + w * r = D"
  shows "u / D * p + (v / D * q + (w / D * r + 0)) = 1"
  using entry_one [OF assms(1), of p u q v r w] assms(2) by (simp add: mult.commute)

lemma entry_zero':
  fixes D :: real
  assumes "u * p + v * q + w * r = 0"
  shows "u / D * p + (v / D * q + (w / D * r + 0)) = 0"
  using entry_zero [of p u q v r w D] assms by (simp add: mult.commute)

lemma mat_inverse3:
  fixes a b c d e f g h i :: real
  defines "J \<equiv> [[a, b, c], [d, e, f], [g, h, i]]"
  assumes "det3 J \<noteq> 0"
  shows "mat_mul3 J (map (\<lambda>r. map (\<lambda>s. cofactor3 J s r / det3 J) [0..<3]) [0..<3]) = identity3"
    and "mat_mul3 (map (\<lambda>r. map (\<lambda>s. cofactor3 J s r / det3 J) [0..<3]) [0..<3]) J = identity3"
proof -
  define D where "D = det3 J"
  have D: "D \<noteq> 0"
    using assms(2) by (simp add: D_def)
  have Dval: "D = a * (e * i - f * h) - b * (d * i - f * g) + c * (d * h - e * g)"
    by (simp add: D_def det3_def J_def)
  have cof: "cofactor3 J 0 0 = e * i - f * h" "cofactor3 J 0 1 = f * g - d * i"
    "cofactor3 J 0 2 = d * h - e * g" "cofactor3 J 1 0 = h * c - i * b"
    "cofactor3 J 1 1 = i * a - g * c" "cofactor3 J 1 2 = g * b - h * a"
    "cofactor3 J 2 0 = b * f - c * e" "cofactor3 J 2 1 = c * d - a * f"
    "cofactor3 J 2 2 = a * e - b * d"
    by (simp_all add: cofactor3_def J_def)
  have inv: "map (\<lambda>r. map (\<lambda>s. cofactor3 J s r / det3 J) [0..<3]) [0..<3]
      = [[(e * i - f * h) / D, (h * c - i * b) / D, (b * f - c * e) / D],
         [(f * g - d * i) / D, (i * a - g * c) / D, (c * d - a * f) / D],
         [(d * h - e * g) / D, (g * b - h * a) / D, (a * e - b * d) / D]]"
    unfolding upt3 D_def [symmetric] by (simp add: cof [unfolded One_nat_def])
  show "mat_mul3 J (map (\<lambda>r. map (\<lambda>s. cofactor3 J s r / det3 J) [0..<3]) [0..<3]) = identity3"
    unfolding inv unfolding mat_mul3_def upt3 identity3_def J_def
    apply (simp only: list.map sum_list.Cons sum_list.Nil One_nat_def numeral_2_eq_2
        nth_Cons_0 nth_Cons_Suc list.inject)
    apply (intro conjI refl entry_one [OF D] entry_zero)
            apply (simp_all only: Dval)
            apply (simp_all add: algebra_simps)
    done
  show "mat_mul3 (map (\<lambda>r. map (\<lambda>s. cofactor3 J s r / det3 J) [0..<3]) [0..<3]) J = identity3"
    unfolding inv unfolding mat_mul3_def upt3 identity3_def J_def
    apply (simp only: list.map sum_list.Cons sum_list.Nil One_nat_def numeral_2_eq_2
        nth_Cons_0 nth_Cons_Suc list.inject)
    apply (intro conjI refl entry_one' [OF D] entry_zero')
            apply (simp_all only: Dval)
            apply (simp_all add: algebra_simps)
    done
qed


lemma inv_jacobian_regular:
  assumes "det_jacobian gradient point vertices \<noteq> 0"
  shows "\<exists>M. inv_jacobian gradient point vertices = Inr M
           \<and> mat_mul3 (jacobian gradient point vertices) M = identity3
           \<and> mat_mul3 M (jacobian gradient point vertices) = identity3"
proof -
  define J where "J = jacobian gradient point vertices"
  have d: "det3 J \<noteq> 0"
    using assms by (simp add: det_jacobian_def J_def)
  have shape: "J = [[J ! 0 ! 0, J ! 0 ! 1, J ! 0 ! 2],
                    [J ! 1 ! 0, J ! 1 ! 1, J ! 1 ! 2],
                    [J ! 2 ! 0, J ! 2 ! 1, J ! 2 ! 2]]"
    unfolding J_def by (rule jacobian_shape)
  define M where "M = map (\<lambda>r. map (\<lambda>s. cofactor3 J s r / det3 J) [0..<3]) [0..<3]"
  have "inv_jacobian gradient point vertices = Inr M"
    using d by (simp add: inv_jacobian_def Let_def J_def M_def)
  moreover have "mat_mul3 J M = identity3" "mat_mul3 M J = identity3"
    unfolding M_def using mat_inverse3 [of "J ! 0 ! 0" "J ! 0 ! 1" "J ! 0 ! 2"
        "J ! 1 ! 0" "J ! 1 ! 1" "J ! 1 ! 2" "J ! 2 ! 0" "J ! 2 ! 1" "J ! 2 ! 2"] d
    unfolding shape [symmetric] by simp_all
  ultimately show ?thesis
    by (simp add: J_def)
qed

text \<open>
  C8. For every evaluation point and vertex configuration at which the determinant of the
  Jacobian is zero, the Jacobian-inverse operation yields the SingularMapping condition
  and no matrix; at every other point it yields the matrix inverse of the Jacobian, so
  that no division by a zero determinant is ever performed.
\<close>

theorem inv_jacobian_singular:
  "(det_jacobian gradient point vertices = 0 \<longrightarrow>
      inv_jacobian gradient point vertices = Inl SingularMapping)
   \<and> (det_jacobian gradient point vertices \<noteq> 0 \<longrightarrow>
      (\<exists>M. inv_jacobian gradient point vertices = Inr M
         \<and> mat_mul3 (jacobian gradient point vertices) M = identity3
         \<and> mat_mul3 M (jacobian gradient point vertices) = identity3))"
proof (intro conjI impI)
  assume "det_jacobian gradient point vertices = 0"
  then show "inv_jacobian gradient point vertices = Inl SingularMapping"
    by (simp add: inv_jacobian_def det_jacobian_def Let_def)
next
  assume "det_jacobian gradient point vertices \<noteq> 0"
  then show "\<exists>M. inv_jacobian gradient point vertices = Inr M
         \<and> mat_mul3 (jacobian gradient point vertices) M = identity3
         \<and> mat_mul3 M (jacobian gradient point vertices) = identity3"
    by (rule inv_jacobian_regular)
qed

theorem inv_jacobian_singular_witness:
  "det_jacobian centre_gradient [0, 0, 0] flat_vertices = 0
   \<and> inv_jacobian centre_gradient [0, 0, 0] flat_vertices = Inl SingularMapping
   \<and> det_jacobian centre_gradient [0, 0, 0] cube_vertices \<noteq> 0
   \<and> inv_jacobian centre_gradient [0, 0, 0] cube_vertices = Inr identity3
   \<and> (\<exists>M. inv_jacobian centre_gradient [0, 0, 0] cube_vertices = Inr M
         \<and> mat_mul3 (jacobian centre_gradient [0, 0, 0] cube_vertices) M = identity3
         \<and> mat_mul3 M (jacobian centre_gradient [0, 0, 0] cube_vertices) = identity3)"
proof -
  have h: "det_jacobian centre_gradient [0, 0, 0] flat_vertices = 0"
    by code_simp
  have d: "det_jacobian centre_gradient [0, 0, 0] cube_vertices = 1"
    by code_simp
  then have h': "det_jacobian centre_gradient [0, 0, 0] cube_vertices \<noteq> 0"
    by simp
  have r: "inv_jacobian centre_gradient [0, 0, 0] cube_vertices = Inr identity3"
    by code_simp
  note s = inv_jacobian_singular [of centre_gradient "[0, 0, 0]" flat_vertices,
      THEN conjunct1, rule_format, OF h]
  note t = inv_jacobian_singular [of centre_gradient "[0, 0, 0]" cube_vertices,
      THEN conjunct2, rule_format, OF h']
  show ?thesis
    by (intro conjI h h' r s t)
qed

subsection \<open>The vertex-to-node tables\<close>

text \<open>
  Two of the six tables agree with the node grid at every vertex and are injective.
\<close>

lemma Quad12_vert_to_node_grid:
  "map (grid_node_id 7 Quad12_ref_vert 2) [0..<12] = Quad12_vert_to_node
   \<and> distinct Quad12_vert_to_node"
  by (intro conjI; code_simp)

lemma Hex20_vert_to_node_grid:
  "map (grid_node_id 5 Hex20_ref_vert 3) [0..<20] = Hex20_vert_to_node
   \<and> distinct Hex20_vert_to_node"
  by (intro conjI; code_simp)

text \<open>
  C9. Every \<^verbatim>\<open>vert_to_node\<close> table of the fixed-order elements should be injective and
  send each vertex to the flat node id \<open>i + j n + k n\<^sup>2\<close> of its reference position. The
  tables of the source are not all so. \<^verbatim>\<open>Hex8::vert_to_node\<close> holds 24 at both vertex
  6 and vertex 7, while vertex 7 sits at \<open>(1, 1, 1)\<close>, node 26 of the 3 x 3 x 3 grid.
  \<^verbatim>\<open>Hex32::vert_to_node\<close> holds 298 at vertices 21 and 31 (vertex 31 is node 238 of the
  7 x 7 x 7 grid) and 32 at vertex 10 (node 34). \<^verbatim>\<open>Quad8::vert_to_node\<close> holds 23 at
  vertex 6 (node 22 of the 5 x 5 grid). \<^verbatim>\<open>Quad4::vert_to_node\<close> lists the nodes of
  vertices 2 and 3 in the opposite order to \<^verbatim>\<open>Quad4::ref_vert\<close>.
\<close>

theorem vert_to_node_tables_defective:
  "Hex8_vert_to_node ! 6 = 24 \<and> Hex8_vert_to_node ! 7 = 24
   \<and> \<not> distinct Hex8_vert_to_node
   \<and> map (grid_node_id 3 Hex8_ref_vert 3) [0..<8] = [0, 2, 6, 8, 18, 20, 24, 26]
   \<and> Hex32_vert_to_node ! 21 = 298 \<and> Hex32_vert_to_node ! 31 = 298
   \<and> \<not> distinct Hex32_vert_to_node
   \<and> grid_node_id 7 Hex32_ref_vert 3 31 = 238
   \<and> Hex32_vert_to_node ! 10 = 32 \<and> grid_node_id 7 Hex32_ref_vert 3 10 = 34
   \<and> Quad8_vert_to_node ! 6 = 23 \<and> grid_node_id 5 Quad8_ref_vert 2 6 = 22
   \<and> map (grid_node_id 3 Quad4_ref_vert 2) [0..<4] = [0, 2, 8, 6]
   \<and> Quad4_vert_to_node = [0, 2, 6, 8]"
  by (intro conjI; code_simp)

subsection \<open>The Hex20 surface table\<close>

text \<open>
  C10. After the Hex20 constructor has run, rows 0 to 5 of \<^verbatim>\<open>surface_to_dof_lid\<close>
  should each hold the 8 local ids of one face. The constructor does not do that: no
  assignment targets row 2, whose 8 cells stay unassigned, and row 3 is the target of 16
  assignments, the ids of the second \<^verbatim>\<open>sw\<close> face overwriting those of the first.
\<close>

theorem Hex20_surface_row2_unwritten:
  "Hex20_surface_to_dof_lid ! 2 = replicate 8 None
   \<and> filter (\<lambda>(row, col, val). row = 2) Hex20_assignments = []
   \<and> length (filter (\<lambda>(row, col, val). row = 3) Hex20_assignments) = 16
   \<and> Hex20_surface_to_dof_lid ! 3 = map Some [3, 10, 2, 19, 18, 7, 14, 6]"
proof (intro conjI)
  show "Hex20_surface_to_dof_lid ! 2 = replicate 8 None"
    by code_simp
  show "filter (\<lambda>(row, col, val). row = 2) Hex20_assignments = []"
    by code_simp
  show "length (filter (\<lambda>(row, col, val). row = 3) Hex20_assignments) = 16"
    by code_simp
  show "Hex20_surface_to_dof_lid ! 3 = map Some [3, 10, 2, 19, 18, 7, 14, 6]"
    by code_simp
qed

end
